theory Spec2Isabelle
  imports Complex_Main
begin

section \<open>JavaScript values\<close>

text \<open>
  A JavaScript string is modelled as a \<open>string\<close>, one \<open>char\<close> per UTF-16 code unit
  (so the model covers the code units 0 to 255), and \<open>length\<close> is the \<open>.length\<close>
  of the source. A number is a \<open>real\<close>: the rounding of floating-point arithmetic is
  not modelled. A value that may be \<open>undefined\<close> or \<open>null\<close> is an \<open>option\<close>.
\<close>

definition js_whitespace :: "char \<Rightarrow> bool" where
  \<comment> \<open>the code units below 256 that \<open>String.prototype.trim\<close> removes\<close>
  "js_whitespace c \<longleftrightarrow>
     c \<in> set [CHR 0x09, CHR 0x0A, CHR 0x0B, CHR 0x0C, CHR 0x0D, CHR 0x20, CHR 0xA0]"

definition trim :: "string \<Rightarrow> string" where
  "trim s = rev (dropWhile js_whitespace (rev (dropWhile js_whitespace s)))"

definition startsWith :: "string \<Rightarrow> string \<Rightarrow> bool" where
  "startsWith s p \<longleftrightarrow> take (length p) s = p"

definition slice :: "string \<Rightarrow> nat \<Rightarrow> string" where
  \<comment> \<open>\<open>s.slice(n)\<close> for a non-negative \<open>n\<close>\<close>
  "slice s n = drop n s"

definition template :: "string option \<Rightarrow> string" where
  \<comment> \<open>a value inside a template literal: \<open>undefined\<close> prints as such\<close>
  "template v = (case v of None \<Rightarrow> ''undefined'' | Some s \<Rightarrow> s)"

definition digit :: "nat \<Rightarrow> char" where
  \<comment> \<open>the decimal digit \<open>d\<close>, for \<open>d\<close> below 10\<close>
  "digit d = ''0123456789'' ! d"

fun decimal :: "nat \<Rightarrow> string" where
  "decimal n = (if n < 10 then [digit n] else decimal (n div 10) @ [digit (n mod 10)])"

declare decimal.simps [simp del]

definition toString :: "int \<Rightarrow> string" where
  \<comment> \<open>\<open>Number.prototype.toString\<close> on an integer below \<open>10^21\<close> in magnitude\<close>
  "toString i = (if i < 0 then CHR ''-'' # decimal (nat (- i)) else decimal (nat i))"

definition padStart2 :: "string \<Rightarrow> string" where
  \<comment> \<open>\<open>s.padStart(2, '0')\<close>\<close>
  "padStart2 s = replicate (2 - length s) (CHR ''0'') @ s"

definition js_rem :: "real \<Rightarrow> real \<Rightarrow> real" where
  \<comment> \<open>the operator \<open>%\<close>: the remainder has the sign of the dividend\<close>
  "js_rem x y = x - y * of_int (if 0 \<le> x / y then \<lfloor>x / y\<rfloor> else \<lceil>x / y\<rceil>)"

definition formatTime :: "real option \<Rightarrow> string" where
  \<comment> \<open>seconds to mm:ss; an absent argument counts as 0 (the default parameter for
      \<open>undefined\<close>, and \<open>null\<close> is 0 in arithmetic)\<close>
  "formatTime t =
     (let sec = (case t of None \<Rightarrow> 0 | Some x \<Rightarrow> x);
          s = padStart2 (toString \<lfloor>js_rem sec 60\<rfloor>);
          m = padStart2 (toString \<lfloor>js_rem (sec / 60) 60\<rfloor>);
          h = \<lfloor>sec / 3600\<rfloor>
      in if h > 0 then toString h @ '':'' @ m @ '':'' @ s else m @ '':'' @ s)"

section \<open>The environment of one event\<close>

text \<open>
  What the handlers draw from outside while one event is processed: the results of the
  calls of \<open>uuidv4()\<close> and of \<open>new Date().toISOString()\<close>, numbered by the place of the
  call in the handler, and the result of \<open>Math.random()\<close>. A join uses \<open>uuid e 0\<close> for a
  room without a name, \<open>uuid e 1\<close> for the member and \<open>uuid e 2\<close>, \<open>uuid e 3\<close> for its log
  entries.
\<close>

record env =
  uuid :: "nat \<Rightarrow> string"
  now :: "nat \<Rightarrow> string"
  random :: real

section \<open>lib/rooms.js: the class Room\<close>

record user =
  user_id :: string
  user_name :: string
  user_socketId :: string
  user_joinedAt :: string

record log =
  log_id :: string
  log_type :: string
  log_text :: string
  log_time :: string

record playback =
  playing :: bool
  position :: "real option"

record video_meta =
  filename :: string
  savedName :: string
  file_size :: nat
  url :: string
  uploadedAt :: string

text \<open>
  \<open>users\<close> is the object \<open>this.users\<close>: its own properties in insertion order, which is
  the order of \<open>Object.values\<close> (the keys are UUIDs, never array indices). The key of a
  member is its \<open>user_id\<close>. \<open>position\<close> is \<open>playbackState.time\<close>.
\<close>

record room =
  room_id :: string
  users :: "user list"
  hostId :: "string option"
  video :: "video_meta option"
  logs :: "log list"
  playbackState :: playback

definition Room :: "string \<Rightarrow> room" where
  "Room i = \<lparr>room_id = i, users = [], hostId = None, video = None, logs = [],
             playbackState = \<lparr>playing = False, position = Some 0\<rparr>\<rparr>"

definition guest_number :: "real \<Rightarrow> int" where
  \<comment> \<open>\<open>Math.floor(100 + Math.random() * 900)\<close>\<close>
  "guest_number r = \<lfloor>100 + r * 900\<rfloor>"

fun put_user :: "user \<Rightarrow> user list \<Rightarrow> user list" where
  \<comment> \<open>\<open>this.users[id] = user\<close>: an existing key keeps its place\<close>
  "put_user u [] = [u]"
| "put_user u (v # vs) = (if user_id v = user_id u then u # vs else v # put_user u vs)"

definition addUser :: "env \<Rightarrow> string \<Rightarrow> string option \<Rightarrow> room \<Rightarrow> user \<times> room" where
  \<comment> \<open>\<open>username || `Guest-${...}`\<close>: an absent or empty username is falsy\<close>
  "addUser e sock username r =
     (let guest = ''Guest-'' @ toString (guest_number (random e));
          nm = (case username of None \<Rightarrow> guest | Some n \<Rightarrow> if n = [] then guest else n);
          u = \<lparr>user_id = uuid e 1, user_name = nm, user_socketId = sock,
               user_joinedAt = now e 0\<rparr>
      in (u, r\<lparr>users := put_user u (users r)\<rparr>))"

definition removeUser :: "string \<Rightarrow> room \<Rightarrow> room" where
  "removeUser userId r = r\<lparr>users := filter (\<lambda>u. user_id u \<noteq> userId) (users r)\<rparr>"

text \<open>
  \<open>getUser\<close> is \<open>this.users[userId]\<close> on an object created by \<open>{}\<close>: the lookup finds an
  own property, or else a property inherited from \<open>Object.prototype\<close>, or else nothing.
  The inherited properties are those of the language and, once \<open>changeUsername\<close> has
  written \<open>Object.prototype.name\<close> (the first argument of \<open>getUser\<close>, \<open>None\<close> as long as
  it is not written), the property \<open>name\<close>.
\<close>

definition object_prototype_keys :: "string list" where
  "object_prototype_keys =
     [''constructor'', ''__defineGetter__'', ''__defineSetter__'', ''hasOwnProperty'',
      ''__lookupGetter__'', ''__lookupSetter__'', ''isPrototypeOf'',
      ''propertyIsEnumerable'', ''toString'', ''valueOf'', ''__proto__'',
      ''toLocaleString'']"

definition inherited_keys :: "string option \<Rightarrow> string list" where
  "inherited_keys proto_name =
     (case proto_name of None \<Rightarrow> object_prototype_keys
      | Some n \<Rightarrow> ''name'' # object_prototype_keys)"

datatype member_ref = Own user | Inherited string | Missing

definition getUser :: "string option \<Rightarrow> room \<Rightarrow> string \<Rightarrow> member_ref" where
  "getUser proto_name r userId =
     (case find (\<lambda>u. user_id u = userId) (users r) of
        Some u \<Rightarrow> Own u
      | None \<Rightarrow> if userId \<in> set (inherited_keys proto_name) then Inherited userId
                else Missing)"

definition name_of :: "string option \<Rightarrow> member_ref \<Rightarrow> string option" where
  \<comment> \<open>\<open>user?.name\<close>; the first argument is \<open>Object.prototype.name\<close>, which
      \<open>users['__proto__'].name\<close> reads, and \<open>users['name'].name\<close> too (a string has no
      \<open>name\<close> of its own); the other inherited values are functions, named after their
      key but for \<open>constructor\<close>, the function \<open>Object\<close>\<close>
  "name_of proto_name m =
     (case m of
        Own u \<Rightarrow> Some (user_name u)
      | Inherited k \<Rightarrow>
          if k = ''__proto__'' \<or> k = ''name'' then proto_name
          else if k = ''constructor'' then Some ''Object'' else Some k
      | Missing \<Rightarrow> None)"

definition getUserBySocket :: "room \<Rightarrow> string \<Rightarrow> user option" where
  "getUserBySocket r sock = find (\<lambda>u. user_socketId u = sock) (users r)"

definition anyUser :: "room \<Rightarrow> user option" where
  "anyUser r = (case users r of [] \<Rightarrow> None | u # _ \<Rightarrow> Some u)"

definition userList :: "room \<Rightarrow> (string \<times> string) list" where
  "userList r = map (\<lambda>u. (user_id u, user_name u)) (users r)"

definition setHost :: "string \<Rightarrow> room \<Rightarrow> room" where
  "setHost userId r = r\<lparr>hostId := Some userId\<rparr>"

definition changeUsername ::
  "string \<Rightarrow> string \<Rightarrow> string option \<Rightarrow> room \<Rightarrow> (room \<times> string option) option" where
  \<comment> \<open>\<open>if (this.users[userId]) this.users[userId].name = newName\<close>, in strict mode (a
      class body): the \<open>name\<close> of an inherited function is read-only, a string takes no
      property, and the assignment throws a TypeError (the result \<open>None\<close>); on
      \<open>Object.prototype\<close>, the value of \<open>users['__proto__']\<close>, it is stored. The result
      carries the room and \<open>Object.prototype.name\<close>\<close>
  "changeUsername userId newName proto_name r =
     (case getUser proto_name r userId of
        Own u \<Rightarrow>
          Some (r\<lparr>users := map (\<lambda>v. if user_id v = userId then v\<lparr>user_name := newName\<rparr> else v)
                   (users r)\<rparr>, proto_name)
      | Inherited k \<Rightarrow> if k = ''__proto__'' then Some (r, Some newName) else None
      | Missing \<Rightarrow> Some (r, proto_name))"

definition addLog :: "string \<Rightarrow> string \<Rightarrow> string \<Rightarrow> string \<Rightarrow> room \<Rightarrow> log \<times> room" where
  \<comment> \<open>the first two arguments are the results of \<open>uuidv4()\<close> and of
      \<open>new Date().toISOString()\<close>; then \<open>entry.type\<close> and \<open>entry.text\<close>\<close>
  "addLog new_id stamp ty txt r =
     (let l = \<lparr>log_id = new_id, log_type = (if ty = [] then ''info'' else ty),
               log_text = txt, log_time = stamp\<rparr>;
          ls = logs r @ [l]
      in (l, r\<lparr>logs := (if length ls > 500 then tl ls else ls)\<rparr>))"

section \<open>server.js: the state of the server\<close>

text \<open>
  \<open>rooms\<close> is the \<open>Map\<close> of the class \<open>Rooms\<close>. \<open>socket_rooms\<close> is \<open>socket.rooms\<close> of
  each socket, the rooms it has joined by \<open>socket.join\<close> in the order of joining.
  \<open>proto_name\<close> is \<open>Object.prototype.name\<close>, which \<open>changeUsername\<close> can write.
\<close>

record server =
  rooms :: "string \<rightharpoonup> room"
  socket_rooms :: "string \<Rightarrow> string list"
  proto_name :: "string option"

definition server0 :: server where
  "server0 = \<lparr>rooms = Map.empty, socket_rooms = (\<lambda>_. []), proto_name = None\<rparr>"

definition put_room :: "string \<Rightarrow> room \<Rightarrow> server \<Rightarrow> server" where
  "put_room key r s = s\<lparr>rooms := (rooms s)(key \<mapsto> r)\<rparr>"

definition socket_join :: "string \<Rightarrow> string \<Rightarrow> server \<Rightarrow> server" where
  \<comment> \<open>\<open>socket.join(roomId)\<close>: \<open>socket.rooms\<close> is a \<open>Set\<close>\<close>
  "socket_join sock roomId s =
     (if roomId \<in> set (socket_rooms s sock) then s
      else s\<lparr>socket_rooms := (socket_rooms s)(sock := socket_rooms s sock @ [roomId])\<rparr>)"

text \<open>
  What a handler hands to its acknowledgement callback (\<open>cb && cb(...)\<close>), and what it
  emits: \<open>socket.emit\<close> reaches the socket, \<open>socket.to(room).emit\<close> the others in the room,
  \<open>io.to(room).emit\<close> the whole room.
\<close>

datatype ack = OkUser user | OkVideo video_meta | Ok | Error string | NotOk

datatype target = ToSocket string | ToOthers string string | ToRoom string

datatype message =
    Room_state string "(string \<times> string) list" "string option" "video_meta option"
      "log list" playback
  | Room_user_joined user log
  | Room_user_list "(string \<times> string) list"
  | Room_user_left string log
  | Chat_log log
  | Chat_message string string "string option" string string
  | Host_play "real option" log
  | Host_pause "real option" log
  | Host_seek "real option" log
  | Host_changed string log
  | Video_uploaded video_meta log

record outcome =
  reply :: "ack option"
  emitted :: "(target \<times> message) list"
  state :: server

definition slice_last :: "nat \<Rightarrow> 'a list \<Rightarrow> 'a list" where
  \<comment> \<open>\<open>xs.slice(-n)\<close>\<close>
  "slice_last n xs = drop (length xs - n) xs"

definition falsy :: "string option \<Rightarrow> bool" where
  \<comment> \<open>\<open>!v\<close> for a string or \<open>null\<close>\<close>
  "falsy v \<longleftrightarrow> v = None \<or> v = Some []"

section \<open>server.js: the handlers\<close>

definition create :: "env \<Rightarrow> string \<Rightarrow> room" where
  \<comment> \<open>\<open>new Room(id || uuidv4())\<close> of \<open>Rooms.create\<close>, which stores the room under its
      \<open>id\<close>\<close>
  "create e i = Room (if i = [] then uuid e 0 else i)"

definition get_or_create :: "env \<Rightarrow> string \<Rightarrow> server \<Rightarrow> string \<times> room" where
  \<comment> \<open>\<open>rooms.get(roomId)\<close>, or else \<open>rooms.create(roomId)\<close>: the key in \<open>rooms\<close> and the
      room\<close>
  "get_or_create e roomId s =
     (case rooms s roomId of
        Some r \<Rightarrow> (roomId, r)
      | None \<Rightarrow> (let r = create e roomId in (room_id r, r)))"

definition room_join :: "env \<Rightarrow> string \<Rightarrow> string \<Rightarrow> string option \<Rightarrow> server \<Rightarrow> outcome" where
  "room_join e sock roomId username s =
     (let (key, r0) = get_or_create e roomId s;
          (u, r1) = addUser e sock username r0;
          r2 = (if falsy (hostId r1)
                then snd (addLog (uuid e 2) (now e 1) ''host_assigned''
                            (user_name u @ '' became host'') (setHost (user_id u) r1))
                else r1);
          (joinedLog, r3) = addLog (uuid e 3) (now e 2) ''user_joined''
                              (user_name u @ '' joined'') r2
      in \<lparr>reply = Some (OkUser u),
          emitted =
            [(ToSocket sock, Room_state roomId (userList r3) (hostId r3) (video r3)
                               (slice_last 50 (logs r3)) (playbackState r3)),
             (ToOthers sock roomId, Room_user_joined u joinedLog),
             (ToRoom roomId, Room_user_list (userList r3))],
          state = put_room key r3 (socket_join sock roomId s)\<rparr>)"

definition chat_message :: "env \<Rightarrow> string \<Rightarrow> string \<Rightarrow> string \<Rightarrow> server \<Rightarrow> outcome" where
  "chat_message e roomId userId text s =
     (case rooms s roomId of
        None \<Rightarrow> \<lparr>reply = None, emitted = [], state = s\<rparr>
      | Some r \<Rightarrow>
          (let user = getUser (proto_name s) r userId in
           if user = Missing then \<lparr>reply = None, emitted = [], state = s\<rparr>
           else if startsWith (trim text) ''/name'' then
             (let newName = trim (slice (trim text) 5) in
              if newName \<noteq> [] \<and> length newName \<le> 32 then
                (let old = name_of (proto_name s) user in
                 case changeUsername userId newName (proto_name s) r of
                   None \<Rightarrow> \<lparr>reply = Some NotOk, emitted = [], state = s\<rparr>
                 | Some (r1, pn) \<Rightarrow>
                     (let (l, r2) = addLog (uuid e 0) (now e 0) ''name_changed''
                                      (template old @ '' changed name to '' @ newName) r1
                      in \<lparr>reply = Some Ok,
                          emitted = [(ToRoom roomId, Chat_log l),
                                     (ToRoom roomId, Room_user_list (userList r2))],
                          state = put_room roomId r2 (s\<lparr>proto_name := pn\<rparr>)\<rparr>))
              else \<lparr>reply = Some (Error ''invalid_name''), emitted = [], state = s\<rparr>)
           else
             (let nm = name_of (proto_name s) user;
                  msg = Chat_message (uuid e 0) userId nm text (now e 0);
                  (l, r1) = addLog (uuid e 1) (now e 1) ''chat''
                              (template nm @ '': '' @ text) r
              in \<lparr>reply = Some Ok, emitted = [(ToRoom roomId, msg)],
                  state = put_room roomId r1 s\<rparr>)))"

text \<open>
  The \<open>userId\<close> of \<open>host:action\<close> as the client sends it: left out (\<open>undefined\<close>), \<open>null\<close>
  or a string. The handler compares it with \<open>room.hostId\<close>, which is \<open>null\<close> or a string,
  by \<open>!==\<close>: \<open>null\<close> differs from \<open>undefined\<close> and equals \<open>null\<close>.
\<close>

datatype js_id = Undefined | Null | Str string

definition id_of :: "string option \<Rightarrow> js_id" where
  \<comment> \<open>the value of \<open>room.hostId\<close>\<close>
  "id_of h = (case h of None \<Rightarrow> Null | Some i \<Rightarrow> Str i)"

definition host_action ::
  "env \<Rightarrow> string \<Rightarrow> js_id \<Rightarrow> string \<Rightarrow> real option \<Rightarrow> server \<Rightarrow> outcome" where
  \<comment> \<open>\<open>time\<close> is a number, or absent (\<open>undefined\<close> or \<open>null\<close>), where \<open>time ?? t\<close> is \<open>t\<close>\<close>
  "host_action e roomId userId action time s =
     (case rooms s roomId of
        None \<Rightarrow> \<lparr>reply = Some (Error ''room_not_found''), emitted = [], state = s\<rparr>
      | Some r \<Rightarrow>
          if id_of (hostId r) \<noteq> userId
          then \<lparr>reply = Some (Error ''not_host''), emitted = [], state = s\<rparr>
          else if action = ''play'' then
            (let t = (case time of None \<Rightarrow> position (playbackState r) | Some x \<Rightarrow> Some x);
                 (l, r1) = addLog (uuid e 0) (now e 0) ''video_play''
                             (''Host played at '' @ formatTime t)
                             (r\<lparr>playbackState := \<lparr>playing = True, position = t\<rparr>\<rparr>)
             in \<lparr>reply = Some Ok, emitted = [(ToRoom roomId, Host_play t l)],
                 state = put_room roomId r1 s\<rparr>)
          else if action = ''pause'' then
            (let t = (case time of None \<Rightarrow> position (playbackState r) | Some x \<Rightarrow> Some x);
                 (l, r1) = addLog (uuid e 0) (now e 0) ''video_pause''
                             (''Host paused at '' @ formatTime t)
                             (r\<lparr>playbackState := \<lparr>playing = False, position = t\<rparr>\<rparr>)
             in \<lparr>reply = Some Ok, emitted = [(ToRoom roomId, Host_pause t l)],
                 state = put_room roomId r1 s\<rparr>)
          else if action = ''seek'' then
            (let (l, r1) = addLog (uuid e 0) (now e 0) ''video_seek''
                             (''Host seeked to '' @ formatTime time)
                             (r\<lparr>playbackState := (playbackState r)\<lparr>position := time\<rparr>\<rparr>)
             in \<lparr>reply = Some Ok, emitted = [(ToRoom roomId, Host_seek time l)],
                 state = put_room roomId r1 s\<rparr>)
          else \<lparr>reply = Some Ok, emitted = [], state = s\<rparr>)"

definition host_take :: "env \<Rightarrow> string \<Rightarrow> string \<Rightarrow> server \<Rightarrow> outcome" where
  "host_take e roomId userId s =
     (case rooms s roomId of
        None \<Rightarrow> \<lparr>reply = Some (Error ''room_not_found''), emitted = [], state = s\<rparr>
      | Some r \<Rightarrow>
          (let user = getUser (proto_name s) r userId in
           if user = Missing
           then \<lparr>reply = Some (Error ''user_not_found''), emitted = [], state = s\<rparr>
           else
             (let previousHostId = hostId r;
                  r1 = setHost userId r;
                  previous =
                    (case previousHostId of
                       None \<Rightarrow> ''none''
                     | Some h \<Rightarrow>
                         if h = [] then ''none''
                         else (case name_of (proto_name s) (getUser (proto_name s) r1 h) of
                                 None \<Rightarrow> h
                               | Some n \<Rightarrow> if n = [] then h else n));
                  (l, r2) = addLog (uuid e 0) (now e 0) ''host_changed''
                              (template (name_of (proto_name s) user)
                                 @ '' took host control (previous host: '' @ previous @ '')'')
                              r1
              in \<lparr>reply = Some Ok,
                  emitted = [(ToRoom roomId, Host_changed userId l),
                             (ToRoom roomId, Room_user_list (userList r2))],
                  state = put_room roomId r2 s\<rparr>)))"

text \<open>
  The body of \<open>joinedRooms.forEach\<close> in the handler of \<open>disconnecting\<close>, for the \<open>k\<close>-th
  room of the socket; it extends the events emitted so far.
\<close>

definition leave_room ::
  "env \<Rightarrow> string \<Rightarrow> nat \<Rightarrow> string \<Rightarrow> (target \<times> message) list \<times> server
     \<Rightarrow> (target \<times> message) list \<times> server" where
  "leave_room e sock k roomId acc =
     (let (out, s) = acc in
      case rooms s roomId of
        None \<Rightarrow> (out, s)
      | Some r \<Rightarrow>
          (case getUserBySocket r sock of
             None \<Rightarrow> (out, s)
           | Some u \<Rightarrow>
               (let (l, r2) = addLog (uuid e (2 * k)) (now e (2 * k)) ''user_left''
                                (user_name u @ '' left'') (removeUser (user_id u) r);
                    out1 = out @ [(ToRoom roomId, Room_user_left (user_id u) l),
                                  (ToRoom roomId, Room_user_list (userList r2))]
                in if hostId r2 = Some (user_id u) then
                     (case anyUser r2 of
                        Some nextUser \<Rightarrow>
                          (let (hostLog, r4) =
                                 addLog (uuid e (2 * k + 1)) (now e (2 * k + 1)) ''host_assigned''
                                   (user_name nextUser @ '' became host after disconnect'')
                                   (setHost (user_id nextUser) r2)
                           in (out1 @ [(ToRoom roomId, Host_changed (user_id nextUser) hostLog),
                                       (ToRoom roomId, Room_user_list (userList r4))],
                               put_room roomId r4 s))
                      | None \<Rightarrow> (out1, put_room roomId (r2\<lparr>hostId := None\<rparr>) s))
                   else (out1, put_room roomId r2 s))))"

fun leave_rooms ::
  "env \<Rightarrow> string \<Rightarrow> nat \<Rightarrow> string list \<Rightarrow> (target \<times> message) list \<times> server
     \<Rightarrow> (target \<times> message) list \<times> server" where
  "leave_rooms e sock k [] acc = acc"
| "leave_rooms e sock k (roomId # rest) acc =
     leave_rooms e sock (Suc k) rest (leave_room e sock k roomId acc)"

definition disconnecting :: "env \<Rightarrow> string \<Rightarrow> server \<Rightarrow> outcome" where
  \<comment> \<open>the socket then leaves all its rooms\<close>
  "disconnecting e sock s =
     (let joinedRooms = filter (\<lambda>r. r \<noteq> sock) (socket_rooms s sock);
          (out, s1) = leave_rooms e sock 0 joinedRooms ([], s)
      in \<lparr>reply = None, emitted = out,
          state = s1\<lparr>socket_rooms := (socket_rooms s1)(sock := [])\<rparr>\<rparr>)"

definition upload :: "env \<Rightarrow> string option \<Rightarrow> video_meta \<Rightarrow> server \<Rightarrow> outcome" where
  \<comment> \<open>the route \<open>/upload\<close> once the file is stored and \<open>meta\<close> is built; \<open>roomId\<close> is
      \<open>req.body.roomId\<close>\<close>
  "upload e roomId meta s =
     (case roomId of
        None \<Rightarrow> \<lparr>reply = Some (OkVideo meta), emitted = [], state = s\<rparr>
      | Some i \<Rightarrow>
          (case (if i = [] then None else rooms s i) of
             None \<Rightarrow> \<lparr>reply = Some (OkVideo meta), emitted = [], state = s\<rparr>
           | Some r \<Rightarrow>
               (let r1 = snd (addLog (uuid e 0) (now e 0) ''video_uploaded''
                                (filename meta @ '' uploaded'') (r\<lparr>video := Some meta\<rparr>))
                in \<lparr>reply = Some (OkVideo meta),
                    emitted = [(ToRoom i, Video_uploaded meta (last (logs r1)))],
                    state = put_room i r1 s\<rparr>)))"

section \<open>Sequences of events\<close>

datatype event =
    Join string string "string option"
  | Chat string string string
  | Action string js_id string "real option"
  | Take string string
  | Disconnect string
  | Upload "string option" video_meta

fun handle :: "env \<Rightarrow> event \<Rightarrow> server \<Rightarrow> outcome" where
  "handle e (Join sock roomId username) s = room_join e sock roomId username s"
| "handle e (Chat roomId userId text) s = chat_message e roomId userId text s"
| "handle e (Action roomId userId action time) s = host_action e roomId userId action time s"
| "handle e (Take roomId userId) s = host_take e roomId userId s"
| "handle e (Disconnect sock) s = disconnecting e sock s"
| "handle e (Upload roomId meta) s = upload e roomId meta s"

fun run :: "server \<Rightarrow> (env \<times> event) list \<Rightarrow> server" where
  "run s [] = s"
| "run s ((e, ev) # rest) = run (state (handle e ev s)) rest"

section \<open>Notions used by the properties\<close>

text \<open>A sequence of calls of \<open>addLog\<close> on one room, each with its identifier, time, type
  and text, and the entry a call creates.\<close>

fun addLogs :: "(string \<times> string \<times> string \<times> string) list \<Rightarrow> room \<Rightarrow> room" where
  "addLogs [] r = r"
| "addLogs ((i, t, ty, txt) # rest) r = addLogs rest (snd (addLog i t ty txt r))"

definition entry :: "string \<times> string \<times> string \<times> string \<Rightarrow> log" where
  "entry c = (case c of (i, t, ty, txt) \<Rightarrow> fst (addLog i t ty txt (Room [])))"

text \<open>An environment for the examples: the identifiers and times of an event carry the
  tag of the event.\<close>

definition sample :: "string \<Rightarrow> env" where
  "sample tag = \<lparr>uuid = (\<lambda>k. tag @ [digit k]), now = (\<lambda>k. ''T'' @ tag @ [digit k]),
                 random = 103 / 225\<rparr>"

text \<open>
  The example of the specification: Ann joins the room abc from the socket s1, then a
  guest joins it from the socket s2.
\<close>

definition two_members :: server where
  "two_members =
     run server0 [(sample ''a'', Join ''s1'' ''abc'' (Some ''Ann'')),
                  (sample ''b'', Join ''s2'' ''abc'' None)]"

text \<open>Ann joins the room abc and leaves: the room has no member and no host.\<close>

definition nobody_left :: server where
  "nobody_left =
     run server0 [(sample ''a'', Join ''s1'' ''abc'' (Some ''Ann'')),
                  (sample ''d'', Disconnect ''s1'')]"

definition ann :: user where
  "ann = \<lparr>user_id = ''a1'', user_name = ''Ann'', user_socketId = ''s1'',
           user_joinedAt = ''Ta0''\<rparr>"

definition guest :: user where
  "guest = \<lparr>user_id = ''b1'', user_name = ''Guest-512'', user_socketId = ''s2'',
             user_joinedAt = ''Tb0''\<rparr>"

definition abc_room :: room where
  "abc_room =
     \<lparr>room_id = ''abc'', users = [ann, guest], hostId = Some ''a1'', video = None,
      logs = [\<lparr>log_id = ''a2'', log_type = ''host_assigned'',
                log_text = ''Ann became host'', log_time = ''Ta1''\<rparr>,
              \<lparr>log_id = ''a3'', log_type = ''user_joined'',
                log_text = ''Ann joined'', log_time = ''Ta2''\<rparr>,
              \<lparr>log_id = ''b3'', log_type = ''user_joined'',
                log_text = ''Guest-512 joined'', log_time = ''Tb2''\<rparr>],
      playbackState = \<lparr>playing = False, position = Some 0\<rparr>\<rparr>"

text \<open>A property of every room of the server.\<close>

definition all_rooms :: "(room \<Rightarrow> bool) \<Rightarrow> server \<Rightarrow> bool" where
  "all_rooms Q s \<longleftrightarrow> (\<forall>k r. rooms s k = Some r \<longrightarrow> Q r)"

text \<open>
  What the body of \<open>joinedRooms.forEach\<close> does to a room when the socket leaves: nothing,
  or the first member of the socket is removed and, when it was the host, the first of
  the remaining members becomes the host, or nobody.
\<close>

definition leaves :: "string \<Rightarrow> room \<Rightarrow> room \<Rightarrow> bool" where
  "leaves sock r r' \<longleftrightarrow>
     r' = r \<or>
     (\<exists>u. getUserBySocket r sock = Some u \<and>
          users r' = filter (\<lambda>v. user_id v \<noteq> user_id u) (users r) \<and>
          playbackState r' = playbackState r \<and>
          hostId r' = (if hostId r = Some (user_id u)
                       then (case users r' of [] \<Rightarrow> None | v # _ \<Rightarrow> Some (user_id v))
                       else hostId r))"

text \<open>
  Conditions on the events of a sequence. \<open>first_join\<close>: a join comes from a socket that
  has no member in the room it names. \<open>time_ok\<close>: a host action carries a time that is
  not negative, or none when it is not a seek.
\<close>

fun first_join :: "server \<Rightarrow> event \<Rightarrow> bool" where
  "first_join s (Join sock roomId username) =
     (case rooms s roomId of None \<Rightarrow> True | Some r \<Rightarrow> getUserBySocket r sock = None)"
| "first_join s (Chat roomId userId text) = True"
| "first_join s (Action roomId userId action time) = True"
| "first_join s (Take roomId userId) = True"
| "first_join s (Disconnect sock) = True"
| "first_join s (Upload roomId meta) = True"

fun joins_once :: "server \<Rightarrow> (env \<times> event) list \<Rightarrow> bool" where
  "joins_once s [] = True"
| "joins_once s ((e, ev) # rest) = (first_join s ev \<and> joins_once (state (handle e ev s)) rest)"

fun time_ok :: "event \<Rightarrow> bool" where
  "time_ok (Action roomId userId action time) =
     (case time of None \<Rightarrow> action \<noteq> ''seek'' | Some t \<Rightarrow> 0 \<le> t)"
| "time_ok (Join sock roomId username) = True"
| "time_ok (Chat roomId userId text) = True"
| "time_ok (Take roomId userId) = True"
| "time_ok (Disconnect sock) = True"
| "time_ok (Upload roomId meta) = True"

text \<open>\<open>take_own\<close>: a request for the host role does not name a property that the object
  \<open>users\<close> inherits.\<close>

fun take_own :: "event \<Rightarrow> bool" where
  "take_own (Take roomId userId) = (userId \<notin> set (''name'' # object_prototype_keys))"
| "take_own (Join sock roomId username) = True"
| "take_own (Chat roomId userId text) = True"
| "take_own (Action roomId userId action time) = True"
| "take_own (Disconnect sock) = True"
| "take_own (Upload roomId meta) = True"

section \<open>Evaluating the model\<close>

lemmas js_defs =
  id_of_def
  js_whitespace_def trim_def startsWith_def slice_def template_def digit_def toString_def
  padStart2_def js_rem_def formatTime_def guest_number_def falsy_def slice_last_def

lemmas room_defs =
  Room_def addUser_def removeUser_def getUser_def name_of_def getUserBySocket_def
  anyUser_def userList_def setHost_def changeUsername_def addLog_def
  object_prototype_keys_def inherited_keys_def

lemmas handler_defs =
  create_def get_or_create_def room_join_def chat_message_def host_action_def host_take_def disconnecting_def
  leave_room_def upload_def server0_def put_room_def socket_join_def sample_def

lemmas eval_defs = handler_defs room_defs js_defs Let_def decimal.simps

lemma two_members_abc: "rooms two_members ''abc'' = Some abc_room"
  by (simp add: two_members_def abc_room_def ann_def guest_def eval_defs)

lemma two_members_sockets:
  "socket_rooms two_members ''s1'' = [''abc'']" "socket_rooms two_members ''s2'' = [''abc'']"
  by (simp_all add: two_members_def eval_defs)

lemma two_members_proto: "proto_name two_members = None"
  by (simp add: two_members_def eval_defs)

lemma nobody_left_abc:
  "map_option users (rooms nobody_left ''abc'') = Some []"
  "map_option hostId (rooms nobody_left ''abc'') = Some None"
  by (simp_all add: nobody_left_def eval_defs)

section \<open>Basic facts about the operations of a room\<close>

lemma find_map_name:
  "find (\<lambda>v. user_id v = k) (map (\<lambda>v. if user_id v = k then v\<lparr>user_name := n\<rparr> else v) xs) =
   map_option (\<lambda>v. v\<lparr>user_name := n\<rparr>) (find (\<lambda>v. user_id v = k) xs)"
  by (induction xs) auto

lemma getUser_Own: "getUser pn r k = Own u \<longleftrightarrow> find (\<lambda>v. user_id v = k) (users r) = Some u"
  by (auto simp: getUser_def split: option.splits)

lemma addLog_fields [simp]:
  "users (snd (addLog i t ty tx r)) = users r"
  "hostId (snd (addLog i t ty tx r)) = hostId r"
  "video (snd (addLog i t ty tx r)) = video r"
  "playbackState (snd (addLog i t ty tx r)) = playbackState r"
  "room_id (snd (addLog i t ty tx r)) = room_id r"
  by (simp_all add: addLog_def Let_def)

lemma addLog_last [simp]: "last (logs (snd (addLog i t ty tx r))) = fst (addLog i t ty tx r)"
  by (cases "logs r") (auto simp: addLog_def Let_def)

lemma addLog_fst:
  "fst (addLog i t ty tx r) =
     \<lparr>log_id = i, log_type = (if ty = [] then ''info'' else ty), log_text = tx, log_time = t\<rparr>"
  by (simp add: addLog_def Let_def)

lemma getUser_addLog [simp]: "getUser pn (snd (addLog i t ty tx r)) k = getUser pn r k"
  by (simp add: getUser_def)

lemma userList_addLog [simp]: "userList (snd (addLog i t ty tx r)) = userList r"
  by (simp add: userList_def)

lemma decimal_three:
  assumes "100 \<le> m" and "m \<le> 999"
  shows "decimal m = [digit (m div 100), digit (m div 10 mod 10), digit (m mod 10)]"
proof -
  have a: "\<not> m < 10" "\<not> m div 10 < 10" "m div 10 div 10 < 10" using assms by auto
  have b: "m div 10 div 10 = m div 100" by (simp add: div_mult2_eq)
  show ?thesis
    using a
    by (simp add: decimal.simps [of m] decimal.simps [of "m div 10"]
          decimal.simps [of "m div 100"] b)
qed

lemma guest_number_range:
  assumes "0 \<le> x" and "x < 1"
  shows "100 \<le> guest_number x \<and> guest_number x \<le> 999"
proof -
  have "100 \<le> 100 + x * 900" using assms by simp
  then have lo: "100 \<le> guest_number x" unfolding guest_number_def by linarith
  have "100 + x * 900 < 1000" using assms by simp
  then have "guest_number x < 1000" unfolding guest_number_def by linarith
  with lo show ?thesis by simp
qed

lemma guest_name:
  assumes "0 \<le> x" and "x < 1"
  shows "\<exists>a b c. 1 \<le> a \<and> a \<le> 9 \<and> b \<le> 9 \<and> c \<le> 9 \<and>
           toString (guest_number x) = [digit a, digit b, digit c]"
proof -
  let ?m = "nat (guest_number x)"
  have r: "100 \<le> ?m" "?m \<le> 999" using guest_number_range [OF assms] by auto
  have "toString (guest_number x) = decimal ?m"
    using guest_number_range [OF assms] by (simp add: toString_def)
  also have "\<dots> = [digit (?m div 100), digit (?m div 10 mod 10), digit (?m mod 10)]"
    using r by (rule decimal_three)
  finally have eq: "toString (guest_number x)
      = [digit (?m div 100), digit (?m div 10 mod 10), digit (?m mod 10)]" .
  have "1 \<le> ?m div 100" "?m div 100 \<le> 9" "?m div 10 mod 10 \<le> 9" "?m mod 10 \<le> 9"
    using r by auto
  with eq show ?thesis by blast
qed

lemma find_put_user:
  "user_id u = k \<Longrightarrow> find (\<lambda>v. user_id v = k) (put_user u xs) = Some u"
  by (induction xs) auto

lemma getUser_addUser:
  "getUser pn (snd (addUser e sock username r)) (user_id (fst (addUser e sock username r)))
     = Own (fst (addUser e sock username r))"
  by (simp add: addUser_def Let_def getUser_def find_put_user)

lemma addUser_name:
  "user_name (fst (addUser e sock username r)) =
     (if falsy username then ''Guest-'' @ toString (guest_number (random e))
      else the username)"
  by (auto simp: addUser_def Let_def falsy_def split: option.splits)

lemma addUser_socket [simp]: "user_socketId (fst (addUser e sock username r)) = sock"
  by (simp add: addUser_def Let_def)

lemma getUser_setHost [simp]: "getUser pn (setHost h r) k = getUser pn r k"
  by (simp add: getUser_def setHost_def)

lemma rooms_put_room [simp]: "rooms (put_room key r s) = (rooms s)(key \<mapsto> r)"
  by (simp add: put_room_def)

lemma socket_rooms_put_room [simp]: "socket_rooms (put_room key r s) = socket_rooms s"
  by (simp add: put_room_def)

lemma rooms_socket_join [simp]: "rooms (socket_join sock roomId s) = rooms s"
  by (simp add: socket_join_def)

lemma setHost_fields [simp]:
  "users (setHost h r) = users r" "hostId (setHost h r) = Some h"
  "playbackState (setHost h r) = playbackState r"
  by (simp_all add: setHost_def)

lemma addUser_fields [simp]:
  "users (snd (addUser e sock username r)) = put_user (fst (addUser e sock username r)) (users r)"
  "hostId (snd (addUser e sock username r)) = hostId r"
  "playbackState (snd (addUser e sock username r)) = playbackState r"
  by (simp_all add: addUser_def Let_def)

lemma removeUser_fields [simp]:
  "users (removeUser k r) = filter (\<lambda>v. user_id v \<noteq> k) (users r)"
  "hostId (removeUser k r) = hostId r"
  "playbackState (removeUser k r) = playbackState r"
  by (simp_all add: removeUser_def)

lemma create_fields [simp]:
  "users (create e i) = []" "hostId (create e i) = None"
  "playbackState (create e i) = \<lparr>playing = False, position = Some 0\<rparr>"
  by (simp_all add: create_def Room_def)

lemma get_or_create_cases:
  "(rooms s roomId = Some (snd (get_or_create e roomId s)) \<and> fst (get_or_create e roomId s) = roomId) \<or>
   (rooms s roomId = None \<and> snd (get_or_create e roomId s) = create e roomId)"
  by (auto simp: get_or_create_def Let_def split: option.splits)

section \<open>What a handler changes in a room\<close>

lemma room_join_frame:
  assumes "rooms (state (room_join e sock roomId username s)) k = Some r'"
  shows "(k \<noteq> fst (get_or_create e roomId s) \<and> rooms s k = Some r') \<or>
         (k = fst (get_or_create e roomId s) \<and>
          users r' = put_user (fst (addUser e sock username (snd (get_or_create e roomId s))))
                       (users (snd (get_or_create e roomId s))) \<and>
          playbackState r' = playbackState (snd (get_or_create e roomId s)) \<and>
          hostId r' = (if falsy (hostId (snd (get_or_create e roomId s)))
                       then Some (user_id (fst (addUser e sock username (snd (get_or_create e roomId s)))))
                       else hostId (snd (get_or_create e roomId s))))"
  using assms
  by (auto simp: room_join_def Let_def split_beta split: if_splits)

lemma changeUsername_frame:
  assumes "changeUsername userId newName pn r = Some (r1, pn1)"
  shows "map user_id (users r1) = map user_id (users r) \<and>
         map user_socketId (users r1) = map user_socketId (users r) \<and>
         playbackState r1 = playbackState r \<and> hostId r1 = hostId r"
  using assms
  by (auto simp: changeUsername_def split: member_ref.splits if_splits)

lemma chat_message_frame:
  assumes "rooms (state (chat_message e roomId userId text s)) k = Some r'"
  shows "\<exists>r. rooms s k = Some r \<and> map user_id (users r') = map user_id (users r) \<and>
             map user_socketId (users r') = map user_socketId (users r) \<and>
             playbackState r' = playbackState r \<and> hostId r' = hostId r"
  using assms
  by (auto simp: chat_message_def Let_def split_beta
      split: if_splits option.splits dest: changeUsername_frame)

lemma host_action_frame:
  assumes "rooms (state (host_action e roomId userId action time s)) k = Some r'"
  shows "\<exists>r. rooms s k = Some r \<and> users r' = users r \<and> hostId r' = hostId r \<and>
             (position (playbackState r') = position (playbackState r) \<or>
              position (playbackState r') = time \<and> (time = None \<longrightarrow> action = ''seek''))"
  using assms
  by (auto simp: host_action_def Let_def split_beta split: if_splits option.splits)

lemma host_take_frame:
  assumes "rooms (state (host_take e roomId userId s)) k = Some r'"
  shows "\<exists>r. rooms s k = Some r \<and> users r' = users r \<and> playbackState r' = playbackState r \<and>
             (hostId r' = hostId r \<or> hostId r' = Some userId \<and> getUser (proto_name s) r userId \<noteq> Missing)"
  using assms
  by (auto simp: host_take_def Let_def split_beta split: if_splits option.splits)

lemma upload_frame:
  assumes "rooms (state (upload e roomId meta s)) k = Some r'"
  shows "\<exists>r. rooms s k = Some r \<and> users r' = users r \<and> playbackState r' = playbackState r \<and>
             hostId r' = hostId r"
  using assms
  by (auto simp: upload_def Let_def split_beta split: if_splits option.splits)

lemma leaves_refl [simp]: "leaves sock r r"
  by (simp add: leaves_def)

lemma leave_room_frame:
  assumes "rooms (snd (leave_room e sock i roomId acc)) k = Some r'"
  shows "\<exists>r. rooms (snd acc) k = Some r \<and> leaves sock r r'"
proof -
  obtain out s where acc: "acc = (out, s)" by (cases acc)
  show ?thesis
  proof (cases "rooms s roomId")
    case None
    with assms acc show ?thesis by (simp add: leave_room_def)
  next
    case (Some r0)
    note r0 = this
    show ?thesis
    proof (cases "getUserBySocket r0 sock")
      case None
      with assms acc r0 show ?thesis by (simp add: leave_room_def)
    next
      case (Some u)
      define r2 where "r2 = snd (addLog (uuid e (2 * i)) (now e (2 * i)) ''user_left''
                                (user_name u @ '' left'') (removeUser (user_id u) r0))"
      have f2: "users r2 = filter (\<lambda>v. user_id v \<noteq> user_id u) (users r0)"
        "hostId r2 = hostId r0" "playbackState r2 = playbackState r0"
        by (simp_all add: r2_def)
      consider (other) "hostId r0 \<noteq> Some (user_id u)"
        | (empty) "hostId r0 = Some (user_id u)" "users r2 = []"
        | (nxt) v vs where "hostId r0 = Some (user_id u)" "users r2 = v # vs"
        by (cases "users r2") auto
      then show ?thesis
      proof cases
        case other
        then have "snd (leave_room e sock i roomId acc) = put_room roomId r2 s"
          using acc r0 Some by (simp add: leave_room_def Let_def split_beta r2_def [symmetric] f2)
        moreover have "leaves sock r0 r2"
          using other Some f2 by (auto simp: leaves_def)
        ultimately show ?thesis using assms acc r0 by (auto split: if_splits)
      next
        case empty
        then have "snd (leave_room e sock i roomId acc) = put_room roomId (r2\<lparr>hostId := None\<rparr>) s"
          using acc r0 Some
          by (simp add: leave_room_def Let_def split_beta r2_def [symmetric] f2 anyUser_def)
        moreover have "leaves sock r0 (r2\<lparr>hostId := None\<rparr>)"
          using empty Some f2 by (auto simp: leaves_def)
        ultimately show ?thesis using assms acc r0 by (auto split: if_splits)
      next
        case nxt
        define r4 where "r4 = snd (addLog (uuid e (2 * i + 1)) (now e (2 * i + 1)) ''host_assigned''
                                   (user_name v @ '' became host after disconnect'')
                                   (setHost (user_id v) r2))"
        have "snd (leave_room e sock i roomId acc) = put_room roomId r4 s"
          using nxt acc r0 Some
          by (simp add: leave_room_def Let_def split_beta r2_def [symmetric] f2 anyUser_def r4_def)
        moreover have "leaves sock r0 r4"
          using nxt Some f2 by (auto simp: leaves_def r4_def)
        ultimately show ?thesis using assms acc r0 by (auto split: if_splits)
      qed
    qed
  qed
qed

lemma leave_room_sockets [simp]:
  "socket_rooms (snd (leave_room e sock i roomId acc)) = socket_rooms (snd acc)"
  by (auto simp: leave_room_def Let_def split_beta split: if_splits option.splits)

lemma leave_rooms_sockets [simp]:
  "socket_rooms (snd (leave_rooms e sock i rids acc)) = socket_rooms (snd acc)"
  by (induction rids arbitrary: i acc) simp_all

lemma leave_rooms_all_rooms:
  assumes "\<And>r r'. Q r \<Longrightarrow> leaves sock r r' \<Longrightarrow> Q r'" and "all_rooms Q (snd acc)"
  shows "all_rooms Q (snd (leave_rooms e sock i rids acc))"
  using assms(2)
proof (induction rids arbitrary: i acc)
  case Nil
  then show ?case by simp
next
  case (Cons rid rids)
  have "all_rooms Q (snd (leave_room e sock i rid acc))"
    unfolding all_rooms_def
  proof (intro allI impI)
    fix k r'
    assume "rooms (snd (leave_room e sock i rid acc)) k = Some r'"
    then obtain r where "rooms (snd acc) k = Some r" "leaves sock r r'"
      using leave_room_frame by blast
    with Cons.prems assms(1) show "Q r'" by (auto simp: all_rooms_def)
  qed
  then show ?case using Cons.IH by simp
qed

lemma disconnecting_all_rooms:
  assumes "\<And>r r'. Q r \<Longrightarrow> leaves sock r r' \<Longrightarrow> Q r'" and "all_rooms Q s"
  shows "all_rooms Q (state (disconnecting e sock s))"
proof -
  have "all_rooms Q (snd (leave_rooms e sock 0 (filter (\<lambda>r. r \<noteq> sock) (socket_rooms s sock)) ([], s)))"
    using assms by (intro leave_rooms_all_rooms) auto
  then show ?thesis
    by (simp add: disconnecting_def Let_def split_beta all_rooms_def)
qed

section \<open>Invariants of the states reached from the empty server\<close>

subsection \<open>The identifiers of the members of a room are distinct\<close>

lemma ids_put_user:
  "set (map user_id (put_user u xs)) = insert (user_id u) (set (map user_id xs))"
  by (induction xs) auto

lemma distinct_put_user:
  "distinct (map user_id xs) \<Longrightarrow> distinct (map user_id (put_user u xs))"
proof (induction xs)
  case Nil
  then show ?case by simp
next
  case (Cons v vs)
  then show ?case using ids_put_user [of u vs] by auto
qed

lemma handle_ids:
  assumes "all_rooms (\<lambda>r. distinct (map user_id (users r))) s"
  shows "all_rooms (\<lambda>r. distinct (map user_id (users r))) (state (handle e ev s))"
proof (cases ev)
  case (Join sock roomId username)
  show ?thesis
    unfolding all_rooms_def Join handle.simps
  proof (intro allI impI)
    fix k r'
    assume "rooms (state (room_join e sock roomId username s)) k = Some r'"
    from room_join_frame [OF this] get_or_create_cases [of s roomId e] assms
    show "distinct (map user_id (users r'))"
      by (auto simp: all_rooms_def intro!: distinct_put_user)
  qed
next
  case (Chat roomId userId body)
  then show ?thesis using assms
    by (auto simp: all_rooms_def dest!: chat_message_frame)
next
  case (Action roomId userId action time)
  then show ?thesis using assms
    by (auto simp: all_rooms_def dest!: host_action_frame)
next
  case (Take roomId userId)
  then show ?thesis using assms
    by (auto simp: all_rooms_def dest!: host_take_frame)
next
  case (Disconnect sock)
  have "\<And>r r'. distinct (map user_id (users r)) \<Longrightarrow> leaves sock r r'
          \<Longrightarrow> distinct (map user_id (users r'))"
    by (auto simp: leaves_def distinct_map_filter)
  then show ?thesis unfolding Disconnect handle.simps
    using assms by (rule disconnecting_all_rooms)
next
  case (Upload roomId meta)
  then show ?thesis using assms
    by (auto simp: all_rooms_def dest!: upload_frame)
qed

lemma run_ids:
  "all_rooms (\<lambda>r. distinct (map user_id (users r))) s \<Longrightarrow>
   all_rooms (\<lambda>r. distinct (map user_id (users r))) (run s tr)"
proof (induction tr arbitrary: s)
  case Nil
  then show ?case by simp
next
  case (Cons x tr)
  obtain e ev where "x = (e, ev)" by (cases x)
  with Cons show ?case using handle_ids by simp
qed

lemma all_rooms_server0 [simp]: "all_rooms Q server0"
  by (simp add: all_rooms_def server0_def)

subsection \<open>The rooms of a socket are distinct\<close>

lemma handle_sockets:
  assumes "\<forall>sock. distinct (socket_rooms s sock)"
  shows "\<forall>sock. distinct (socket_rooms (state (handle e ev s)) sock)"
proof (cases ev)
  case (Join sock roomId username)
  then show ?thesis using assms
    by (auto simp: room_join_def Let_def split_beta socket_join_def)
next
  case (Chat roomId userId body)
  then show ?thesis using assms
    by (auto simp: chat_message_def Let_def split_beta split: option.splits)
next
  case (Action roomId userId action time)
  then show ?thesis using assms
    by (auto simp: host_action_def Let_def split_beta split: option.splits)
next
  case (Take roomId userId)
  then show ?thesis using assms
    by (auto simp: host_take_def Let_def split_beta split: option.splits)
next
  case (Disconnect sock)
  then show ?thesis using assms
    by (auto simp: disconnecting_def Let_def split_beta)
next
  case (Upload roomId meta)
  then show ?thesis using assms
    by (auto simp: upload_def Let_def split_beta split: option.splits)
qed

lemma run_sockets:
  "\<forall>sock. distinct (socket_rooms s sock) \<Longrightarrow> \<forall>sock. distinct (socket_rooms (run s tr) sock)"
proof (induction tr arbitrary: s)
  case Nil
  then show ?case by simp
next
  case (Cons x tr)
  obtain e ev where "x = (e, ev)" by (cases x)
  with Cons show ?case using handle_sockets by simp
qed

section \<open>The activity log\<close>


lemma addLog_entry: "fst (addLog i t ty txt r) = entry (i, t, ty, txt)"
  by (simp add: addLog_def entry_def Let_def)

lemma addLog_logs:
  assumes "length (logs r) \<le> 500"
  shows "logs (snd (addLog i t ty txt r)) = slice_last 500 (logs r @ [entry (i, t, ty, txt)])"
proof (cases "length (logs r) = 500")
  case True
  then have "length (logs r) + 1 - 500 = Suc 0" and "logs r \<noteq> []" by auto
  with True show ?thesis
    by (simp add: addLog_def entry_def Let_def slice_last_def Room_def drop_Suc)
next
  case False
  with assms show ?thesis
    by (simp add: addLog_def entry_def Let_def slice_last_def Room_def)
qed

lemma addLog_length: "length (logs r) \<le> 500 \<Longrightarrow> length (logs (snd (addLog i t ty txt r))) \<le> 500"
  by (simp add: addLog_def Let_def)

lemma slice_last_append:
  "slice_last n (slice_last n xs @ ys) = slice_last n (xs @ ys)"
proof (cases "length xs \<le> n")
  case True
  then show ?thesis by (simp add: slice_last_def)
next
  case False
  then have "length xs + length ys - n = length ys + (length xs - n)" by simp
  with False show ?thesis by (simp add: slice_last_def add.commute)
qed

text \<open>
  C8. A room whose log holds at most 500 entries (a new room holds none) holds at most
  500 after any sequence of calls of \<open>addLog\<close>, and they are the last 500 of the old
  entries followed by the created ones, in the order of the calls: an entry is added at
  the end, and the entries that leave are the oldest.
\<close>

theorem addLog_bounded_fifo:
  "length (logs r) \<le> 500 \<Longrightarrow>
   length (logs (addLogs calls r)) \<le> 500 \<and>
   logs (addLogs calls r) = slice_last 500 (logs r @ map entry calls)"
proof (induction calls arbitrary: r)
  case Nil
  then show ?case by (simp add: slice_last_def)
next
  case (Cons c calls)
  obtain i t ty tx where c: "c = (i, t, ty, tx)" by (cases c) auto
  let ?r = "snd (addLog i t ty tx r)"
  have len: "length (logs ?r) \<le> 500" using Cons.prems by (rule addLog_length)
  have eq: "slice_last 500 (logs ?r @ map entry calls) = slice_last 500 (logs r @ map entry (c # calls))"
    using Cons.prems by (simp add: addLog_logs c slice_last_append)
  have "length (logs (addLogs (c # calls) r)) \<le> 500"
    using conjunct1 [OF Cons.IH [OF len]] by (simp add: c)
  moreover have "logs (addLogs (c # calls) r) = slice_last 500 (logs ?r @ map entry calls)"
    using conjunct2 [OF Cons.IH [OF len]] by (simp add: c)
  ultimately show ?case using eq by simp
qed


theorem addLog_bounded_fifo_witness:
  "length (logs (Room ''abc'')) \<le> 500 \<and>
   length (logs (addLogs [(''i1'', ''t1'', ''chat'', ''A: hi''), (''i2'', ''t2'', [], ''x'')]
                   (Room ''abc''))) \<le> 500 \<and>
   logs (addLogs [(''i1'', ''t1'', ''chat'', ''A: hi''), (''i2'', ''t2'', [], ''x'')]
           (Room ''abc'')) =
     [\<lparr>log_id = ''i1'', log_type = ''chat'', log_text = ''A: hi'', log_time = ''t1''\<rparr>,
      \<lparr>log_id = ''i2'', log_type = ''info'', log_text = ''x'', log_time = ''t2''\<rparr>]"
proof -
  have h: "length (logs (Room ''abc'')) \<le> 500" by (simp add: Room_def)
  show ?thesis
    using h addLog_bounded_fifo [OF h, of "[(''i1'', ''t1'', ''chat'', ''A: hi''), (''i2'', ''t2'', [], ''x'')]"]
    by (simp add: Room_def entry_def addLog_def slice_last_def Let_def)
qed

section \<open>Host actions\<close>

text \<open>
  C2. In an existing room, \<open>host:action\<close> with a \<open>userId\<close> that is not the room's
  \<open>hostId\<close> (a string that is not the host's, or \<open>null\<close> or no \<open>userId\<close> at all when the
  room has a host, or no \<open>userId\<close> when it has none) answers \<open>not_host\<close>, leaves the
  whole state of the server as it was (the playback state and the log of the room with
  it) and emits nothing.
\<close>

theorem host_action_not_host:
  assumes "rooms s roomId = Some r" and "id_of (hostId r) \<noteq> userId"
  shows "host_action e roomId userId action time s =
           \<lparr>reply = Some (Error ''not_host''), emitted = [], state = s\<rparr>"
  using assms by (simp add: host_action_def)

theorem host_action_not_host_witness:
  "rooms two_members ''abc'' = Some abc_room \<and> id_of (hostId abc_room) \<noteq> Str ''b1'' \<and>
   host_action (sample ''c'') ''abc'' (Str ''b1'') ''pause'' None two_members =
     \<lparr>reply = Some (Error ''not_host''), emitted = [], state = two_members\<rparr> \<and>
   rooms nobody_left ''abc'' = Some (the (rooms nobody_left ''abc'')) \<and>
   hostId (the (rooms nobody_left ''abc'')) = None \<and>
   id_of (hostId (the (rooms nobody_left ''abc''))) \<noteq> Undefined \<and>
   host_action (sample ''c'') ''abc'' Undefined ''play'' (Some 10) nobody_left =
     \<lparr>reply = Some (Error ''not_host''), emitted = [], state = nobody_left\<rparr>"
proof -
  have h: "id_of (hostId abc_room) \<noteq> Str ''b1''" by (simp add: abc_room_def id_of_def)
  have r: "rooms nobody_left ''abc'' = Some (the (rooms nobody_left ''abc''))"
    and n: "hostId (the (rooms nobody_left ''abc'')) = None"
    using nobody_left_abc by (cases "rooms nobody_left ''abc''"; simp)+
  have u: "id_of (hostId (the (rooms nobody_left ''abc''))) \<noteq> Undefined"
    by (simp add: n id_of_def)
  show ?thesis
    using two_members_abc h host_action_not_host [OF two_members_abc h]
      r n u host_action_not_host [OF r u]
    by simp
qed

text \<open>
  The other side of the comparison: in the room without host, a \<open>userId\<close> \<open>null\<close> equals
  the \<open>hostId\<close> \<open>null\<close> and the action is carried out.
\<close>

lemma host_action_null_user:
  "reply (host_action (sample ''c'') ''abc'' Null ''play'' (Some 10) nobody_left) = Some Ok \<and>
   map_option playbackState
     (rooms (state (host_action (sample ''c'') ''abc'' Null ''play'' (Some 10) nobody_left)) ''abc'')
     = Some \<lparr>playing = True, position = Some 10\<rparr>"
  by (simp add: nobody_left_def eval_defs)

section \<open>Renaming by a chat message\<close>

text \<open>
  C7. A chat message of a member of the room whose trimmed text starts with \<open>/name\<close>:
  when the rest of the text, trimmed, has between 1 and 32 characters, the member gets it
  as name, the entry \<open>name_changed\<close> with the text \<open>old changed name to new\<close> is the last
  of the log, the log entry and the list of members go to the room, and the answer is
  \<open>ok\<close>; otherwise the answer is \<open>invalid_name\<close>, the state of the server is as
  before and nothing is emitted.
\<close>

theorem chat_rename:
  assumes "rooms s roomId = Some r" and "getUser (proto_name s) r userId = Own u"
    and "startsWith (trim text) ''/name''"
  shows "let newName = trim (slice (trim text) 5);
             out = chat_message e roomId userId text s;
             l = \<lparr>log_id = uuid e 0, log_type = ''name_changed'',
                  log_text = user_name u @ '' changed name to '' @ newName,
                  log_time = now e 0\<rparr>
         in if 1 \<le> length newName \<and> length newName \<le> 32
            then reply out = Some Ok \<and>
                 (\<exists>r'. rooms (state out) roomId = Some r' \<and>
                        getUser (proto_name s) r' userId = Own (u\<lparr>user_name := newName\<rparr>) \<and>
                        last (logs r') = l \<and>
                        emitted out = [(ToRoom roomId, Chat_log l),
                                       (ToRoom roomId, Room_user_list (userList r'))])
            else out = \<lparr>reply = Some (Error ''invalid_name''), emitted = [], state = s\<rparr>"
proof -
  define newName where "newName = trim (slice (trim text) 5)"
  define l where "l = \<lparr>log_id = uuid e 0, log_type = ''name_changed'',
                  log_text = user_name u @ '' changed name to '' @ newName,
                  log_time = now e 0\<rparr>"
  have user: "getUser (proto_name s) r userId \<noteq> Missing" using assms(2) by simp
  show ?thesis
  proof (cases "1 \<le> length newName \<and> length newName \<le> 32")
    case False
    then have nn: "(newName \<noteq> [] \<and> length newName \<le> 32) = False"
      by (cases newName) auto
    have "chat_message e roomId userId text s =
                 \<lparr>reply = Some (Error ''invalid_name''), emitted = [], state = s\<rparr>"
      using assms(1,3) user
      by (simp add: chat_message_def Let_def newName_def [symmetric] nn del: de_Morgan_conj)
    with False show ?thesis
      by (simp only: Let_def newName_def [symmetric] if_False)
  next
    case True
    then have ne: "newName \<noteq> [] \<and> length newName \<le> 32" by auto
    let ?r1 = "r\<lparr>users := map (\<lambda>v. if user_id v = userId then v\<lparr>user_name := newName\<rparr> else v) (users r)\<rparr>"
    let ?r2 = "snd (addLog (uuid e 0) (now e 0) ''name_changed''
                      (user_name u @ '' changed name to '' @ newName) ?r1)"
    have ch: "changeUsername userId newName (proto_name s) r = Some (?r1, proto_name s)"
      using assms(2) by (simp add: changeUsername_def)
    have own: "getUser (proto_name s) ?r1 userId = Own (u\<lparr>user_name := newName\<rparr>)"
      using assms(2) by (simp add: getUser_Own find_map_name)
    have out: "chat_message e roomId userId text s =
                 \<lparr>reply = Some Ok,
                  emitted = [(ToRoom roomId, Chat_log l),
                             (ToRoom roomId, Room_user_list (userList ?r2))],
                  state = put_room roomId ?r2 s\<rparr>"
      using assms ne ch user
      by (simp add: chat_message_def Let_def newName_def [symmetric] name_of_def template_def
            split_beta addLog_fst l_def)
    have "rooms (put_room roomId ?r2 s) roomId = Some ?r2" by (simp add: put_room_def)
    moreover have "getUser (proto_name s) ?r2 userId = Own (u\<lparr>user_name := newName\<rparr>)"
      using own by simp
    moreover have "last (logs ?r2) = l" by (simp add: addLog_fst l_def)
    ultimately have "reply (chat_message e roomId userId text s) = Some Ok \<and>
                 (\<exists>r'. rooms (state (chat_message e roomId userId text s)) roomId = Some r' \<and>
                        getUser (proto_name s) r' userId = Own (u\<lparr>user_name := newName\<rparr>) \<and>
                        last (logs r') = l \<and>
                        emitted (chat_message e roomId userId text s) =
                          [(ToRoom roomId, Chat_log l),
                           (ToRoom roomId, Room_user_list (userList r'))])"
      by (simp add: out)
    with True show ?thesis
      unfolding Let_def newName_def [symmetric] l_def [symmetric] by presburger
  qed
qed

theorem chat_rename_witness:
  "rooms two_members ''abc'' = Some abc_room \<and> getUser (proto_name two_members) abc_room ''b1'' = Own guest \<and>
   startsWith (trim '' /name  Alice '') ''/name'' \<and>
   reply (chat_message (sample ''c'') ''abc'' ''b1'' '' /name  Alice '' two_members) = Some Ok \<and>
   getUser (proto_name two_members) (the (rooms (state (chat_message (sample ''c'') ''abc'' ''b1'' '' /name  Alice ''
                                 two_members)) ''abc'')) ''b1''
     = Own (guest\<lparr>user_name := ''Alice''\<rparr>) \<and>
   last (logs (the (rooms (state (chat_message (sample ''c'') ''abc'' ''b1'' '' /name  Alice ''
                                    two_members)) ''abc'')))
     = \<lparr>log_id = ''c0'', log_type = ''name_changed'',
        log_text = ''Guest-512 changed name to Alice'', log_time = ''Tc0''\<rparr>"
proof -
  have own: "getUser (proto_name two_members) abc_room ''b1'' = Own guest"
    by (simp add: abc_room_def ann_def guest_def getUser_def)
  have pre: "startsWith (trim '' /name  Alice '') ''/name''"
    by (simp add: js_defs)
  have new: "trim (slice (trim '' /name  Alice '') 5) = ''Alice''"
    by (simp add: js_defs)
  show ?thesis
    using two_members_abc own pre
      chat_rename [OF two_members_abc own pre, of "sample ''c''"]
    by (auto simp: new Let_def guest_def sample_def digit_def)
qed

section \<open>The name of a new member\<close>

lemma room_join_reply:
  "reply (room_join e sock roomId username s) =
     Some (OkUser (fst (addUser e sock username (snd (get_or_create e roomId s)))))"
  by (simp add: room_join_def  Let_def split_beta)

lemma room_join_member:
  "\<exists>r'. rooms (state (room_join e sock roomId username s)) (fst (get_or_create e roomId s)) = Some r' \<and>
        (\<forall>pn k. getUser pn r' k = getUser pn (snd (addUser e sock username (snd (get_or_create e roomId s)))) k)"
  by (simp add: room_join_def  Let_def split_beta put_room_def)

text \<open>
  C9 (as amended). With \<open>Math.random()\<close> in the interval from 0 to 1 (1 excluded), a
  join answers with the created member, who is a member of the room under its identifier
  and belongs to the joining socket. Its name is the username of the caller as it is (it
  is not trimmed) when that is a non-empty string, and otherwise \<open>Guest-\<close> followed by
  three digits, the first not 0.
\<close>

theorem room_join_member_name:
  assumes "0 \<le> random e" and "random e < 1"
  shows "\<exists>u. reply (room_join e sock roomId username s) = Some (OkUser u) \<and>
             user_socketId u = sock \<and>
             (\<exists>key r'. rooms (state (room_join e sock roomId username s)) key = Some r' \<and>
                        getUser (proto_name s) r' (user_id u) = Own u) \<and>
             (if falsy username
              then \<exists>a b c. 1 \<le> a \<and> a \<le> 9 \<and> b \<le> 9 \<and> c \<le> 9 \<and>
                     user_name u = ''Guest-'' @ [digit a, digit b, digit c]
              else username = Some (user_name u))"
proof -
  let ?r0 = "snd (get_or_create e roomId s)"
  let ?u = "fst (addUser e sock username ?r0)"
  have name: "if falsy username
              then \<exists>a b c. 1 \<le> a \<and> a \<le> 9 \<and> b \<le> 9 \<and> c \<le> 9 \<and>
                     user_name ?u = ''Guest-'' @ [digit a, digit b, digit c]
              else username = Some (user_name ?u)"
  proof (cases "falsy username")
    case True
    with guest_name [OF assms] show ?thesis by (simp add: addUser_name)
  next
    case False
    then show ?thesis by (auto simp: addUser_name falsy_def)
  qed
  have "\<exists>key r'. rooms (state (room_join e sock roomId username s)) key = Some r' \<and>
                  getUser (proto_name s) r' (user_id ?u) = Own ?u"
    using room_join_member [of e sock roomId username s] getUser_addUser by metis
  with name show ?thesis
    using room_join_reply [of e sock roomId username s] addUser_socket by blast
qed

theorem room_join_member_name_witness:
  "0 \<le> random (sample ''b'') \<and> random (sample ''b'') < 1 \<and>
   reply (room_join (sample ''b'') ''s2'' ''abc'' None server0) = Some (OkUser guest) \<and>
   user_name guest = ''Guest-'' @ [digit 5, digit 1, digit 2] \<and>
   reply (room_join (sample ''a'') ''s1'' ''abc'' (Some ''Ann'') server0) = Some (OkUser ann) \<and>
   user_name ann = ''Ann''"
proof -
  have h: "0 \<le> random (sample ''b'')" "random (sample ''b'') < 1"
    by (simp_all add: sample_def)
  show ?thesis
    using h room_join_member_name [OF h, of "''s2''" "''abc''" None server0]
    by (simp add: guest_def ann_def eval_defs)
qed

text \<open>
  C9 as stated fails: the username \<open>" Bob"\<close> has the non-empty trimmed form \<open>"Bob"\<close>,
  and the member is named \<open>" Bob"\<close>.
\<close>

theorem room_join_keeps_whitespace:
  "trim '' Bob'' = ''Bob'' \<and>
   reply (room_join (sample ''a'') ''s1'' ''abc'' (Some '' Bob'') server0) =
     Some (OkUser \<lparr>user_id = ''a1'', user_name = '' Bob'', user_socketId = ''s1'',
                   user_joinedAt = ''Ta0''\<rparr>)"
  by (simp add: eval_defs)

section \<open>The host disconnects\<close>

lemma leave_room_other:
  "k \<noteq> roomId \<Longrightarrow> rooms (snd (leave_room e sock i roomId acc)) k = rooms (snd acc) k"
  by (auto simp: leave_room_def Let_def split_beta split: option.splits)

lemma leave_rooms_other:
  "k \<notin> set rids \<Longrightarrow> rooms (snd (leave_rooms e sock i rids acc)) k = rooms (snd acc) k"
  by (induction rids arbitrary: i acc) (simp_all add: leave_room_other)

lemma leave_rooms_append:
  "leave_rooms e sock i (xs @ ys) acc =
     leave_rooms e sock (i + length xs) ys (leave_rooms e sock i xs acc)"
  by (induction xs arbitrary: i acc) simp_all

lemma find_member: "find P xs = Some u \<Longrightarrow> u \<in> set xs \<and> P u"
  by (induction xs) (auto split: if_splits)

lemma filter_other_ids:
  "distinct (map user_id xs) \<Longrightarrow> u \<in> set xs \<Longrightarrow>
   filter (\<lambda>v. user_id v \<noteq> user_id u) xs = remove1 u xs"
proof (induction xs)
  case Nil
  then show ?case by simp
next
  case (Cons x xs)
  show ?case
  proof (cases "x = u")
    case True
    with Cons.prems have "user_id u \<notin> user_id ` set xs" by simp
    then have "\<forall>v\<in>set xs. user_id v \<noteq> user_id u" by (metis imageI)
    with True show ?thesis by simp
  next
    case False
    with Cons show ?thesis by auto
  qed
qed

lemma filter_same_id:
  "distinct (map user_id (v # vs)) \<Longrightarrow> filter (\<lambda>w. user_id v = user_id w) (v # vs) = [v]"
  by (auto simp: filter_empty_conv)

lemma leave_room_host:
  assumes "rooms (snd acc) roomId = Some r" and "getUserBySocket r sock = Some u"
    and "hostId r = Some (user_id u)" and "distinct (map user_id (users r))"
  shows "\<exists>r'. rooms (snd (leave_room e sock i roomId acc)) roomId = Some r' \<and>
              users r' = remove1 u (users r) \<and>
              (if users r' = [] then hostId r' = None
               else \<exists>v. filter (\<lambda>w. hostId r' = Some (user_id w)) (users r') = [v] \<and>
                        log_type (last (logs r')) = ''host_assigned'' \<and>
                        log_text (last (logs r')) = user_name v @ '' became host after disconnect'')"
proof -
  obtain out s where acc: "acc = (out, s)" by (cases acc)
  define r2 where "r2 = snd (addLog (uuid e (2 * i)) (now e (2 * i)) ''user_left''
                                (user_name u @ '' left'') (removeUser (user_id u) r))"
  have "u \<in> set (users r)" using assms(2) by (auto simp: getUserBySocket_def dest: find_member)
  then have u2: "users r2 = remove1 u (users r)"
    using assms(4) by (simp add: r2_def filter_other_ids)
  have h2: "hostId r2 = Some (user_id u)" using assms(3) by (simp add: r2_def)
  have d2: "distinct (map user_id (users r2))"
    using assms(4) by (simp add: r2_def distinct_map_filter)
  show ?thesis
  proof (cases "users r2")
    case Nil
    then have "snd (leave_room e sock i roomId acc) = put_room roomId (r2\<lparr>hostId := None\<rparr>) s"
      using acc assms(1,2) h2
      by (simp add: leave_room_def Let_def split_beta r2_def [symmetric] anyUser_def)
    with Nil u2 show ?thesis by simp
  next
    case (Cons v vs)
    define r4 where "r4 = snd (addLog (uuid e (2 * i + 1)) (now e (2 * i + 1)) ''host_assigned''
                                   (user_name v @ '' became host after disconnect'')
                                   (setHost (user_id v) r2))"
    have "snd (leave_room e sock i roomId acc) = put_room roomId r4 s"
      using Cons acc assms(1,2) h2
      by (simp add: leave_room_def Let_def split_beta r2_def [symmetric] anyUser_def r4_def)
    moreover have "users r4 = remove1 u (users r)" using u2 by (simp add: r4_def)
    moreover have "users r4 \<noteq> []" using Cons by (simp add: r4_def)
    moreover have "filter (\<lambda>w. hostId r4 = Some (user_id w)) (users r4) = [v]"
      using d2 Cons filter_same_id [of v vs] by (simp add: r4_def)
    moreover have "log_type (last (logs r4)) = ''host_assigned''"
      "log_text (last (logs r4)) = user_name v @ '' became host after disconnect''"
      by (simp_all add: r4_def addLog_fst)
    ultimately show ?thesis by auto
  qed
qed

lemma disconnecting_room:
  assumes "distinct (socket_rooms s sock)" and "roomId \<in> set (socket_rooms s sock)"
    and "roomId \<noteq> sock"
  shows "\<exists>i acc. rooms (snd acc) roomId = rooms s roomId \<and>
           rooms (state (disconnecting e sock s)) roomId =
             rooms (snd (leave_room e sock i roomId acc)) roomId"
proof -
  let ?joined = "filter (\<lambda>r. r \<noteq> sock) (socket_rooms s sock)"
  have "distinct ?joined" "roomId \<in> set ?joined" using assms by auto
  then obtain pre post where j: "?joined = pre @ roomId # post"
    and "roomId \<notin> set pre" "roomId \<notin> set post"
    by (metis distinct_append distinct.simps(2) not_distinct_conv_prefix split_list)
  let ?acc = "leave_rooms e sock 0 pre ([], s)"
  have "rooms (snd ?acc) roomId = rooms s roomId"
    using \<open>roomId \<notin> set pre\<close> by (simp add: leave_rooms_other)
  moreover have "rooms (state (disconnecting e sock s)) roomId =
      rooms (snd (leave_room e sock (length pre) roomId ?acc)) roomId"
    using \<open>roomId \<notin> set post\<close>
    by (simp add: disconnecting_def Let_def split_beta j leave_rooms_append leave_rooms_other)
  ultimately show ?thesis by blast
qed

text \<open>
  C3. In a state reached from the empty server, a socket disconnects that has joined the
  room and whose member there (the first member of the socket) is the host of the room.
  Then the member is removed from the room. When members remain, exactly one of them is
  the new host and the last entry of the log is \<open>host_assigned\<close> for that member; when
  none remains, the room has no host.
\<close>

theorem disconnecting_host:
  assumes "s = run server0 tr"
    and "roomId \<in> set (socket_rooms s sock)" and "roomId \<noteq> sock"
    and "rooms s roomId = Some r" and "getUserBySocket r sock = Some u"
    and "hostId r = Some (user_id u)"
  shows "\<exists>r'. rooms (state (disconnecting e sock s)) roomId = Some r' \<and>
              users r' = remove1 u (users r) \<and>
              (if users r' = [] then hostId r' = None
               else \<exists>v. filter (\<lambda>w. hostId r' = Some (user_id w)) (users r') = [v] \<and>
                        log_type (last (logs r')) = ''host_assigned'' \<and>
                        log_text (last (logs r')) = user_name v @ '' became host after disconnect'')"
proof -
  have "\<forall>sock. distinct (socket_rooms s sock)"
    unfolding assms(1) by (rule run_sockets) (simp add: server0_def)
  then have ds: "distinct (socket_rooms s sock)" by simp
  have "all_rooms (\<lambda>r. distinct (map user_id (users r))) s"
    unfolding assms(1) by (rule run_ids) simp
  with assms(4) have dr: "distinct (map user_id (users r))" by (simp add: all_rooms_def)
  obtain i acc where a: "rooms (snd acc) roomId = Some r"
    and b: "rooms (state (disconnecting e sock s)) roomId =
             rooms (snd (leave_room e sock i roomId acc)) roomId"
    using disconnecting_room [OF ds assms(2,3)] assms(4) by metis
  show ?thesis
    unfolding b using a assms(5,6) dr by (rule leave_room_host)
qed

theorem disconnecting_host_witness:
  "two_members = run server0 [(sample ''a'', Join ''s1'' ''abc'' (Some ''Ann'')),
                              (sample ''b'', Join ''s2'' ''abc'' None)] \<and>
   ''abc'' \<in> set (socket_rooms two_members ''s1'') \<and> ''abc'' \<noteq> ''s1'' \<and>
   rooms two_members ''abc'' = Some abc_room \<and> getUserBySocket abc_room ''s1'' = Some ann \<and>
   hostId abc_room = Some (user_id ann) \<and>
   users (the (rooms (state (disconnecting (sample ''d'') ''s1'' two_members)) ''abc'')) = [guest] \<and>
   hostId (the (rooms (state (disconnecting (sample ''d'') ''s1'' two_members)) ''abc'')) = Some ''b1'' \<and>
   log_text (last (logs (the (rooms (state (disconnecting (sample ''d'') ''s1'' two_members))
                                 ''abc''))))
     = ''Guest-512 became host after disconnect''"
proof -
  have h: "''abc'' \<in> set (socket_rooms two_members ''s1'')" "''abc'' \<noteq> ''s1''"
    "getUserBySocket abc_room ''s1'' = Some ann" "hostId abc_room = Some (user_id ann)"
    by (simp_all add: two_members_sockets abc_room_def ann_def guest_def getUserBySocket_def)
  have u: "remove1 ann (users abc_room) = [guest]"
    by (simp add: abc_room_def ann_def guest_def)
  from disconnecting_host [OF two_members_def h(1,2) two_members_abc h(3,4), of "sample ''d''"]
  obtain r' where r': "rooms (state (disconnecting (sample ''d'') ''s1'' two_members)) ''abc'' = Some r'"
    and "users r' = [guest]"
    and "\<exists>v. filter (\<lambda>w. hostId r' = Some (user_id w)) (users r') = [v] \<and>
          log_type (last (logs r')) = ''host_assigned'' \<and>
          log_text (last (logs r')) = user_name v @ '' became host after disconnect''"
    by (auto simp: u)
  then have "hostId r' = Some ''b1''"
    "log_text (last (logs r')) = ''Guest-512 became host after disconnect''"
    by (auto simp: guest_def split: if_splits)
  with r' \<open>users r' = [guest]\<close> h two_members_abc two_members_def show ?thesis by simp
qed

section \<open>The playback position\<close>

lemma handle_position:
  assumes "time_ok ev"
    and "all_rooms (\<lambda>r. \<exists>t. position (playbackState r) = Some t \<and> 0 \<le> t) s"
  shows "all_rooms (\<lambda>r. \<exists>t. position (playbackState r) = Some t \<and> 0 \<le> t)
           (state (handle e ev s))"
proof (cases ev)
  case (Join sock roomId username)
  show ?thesis
    unfolding all_rooms_def Join handle.simps
  proof (intro allI impI)
    fix k r'
    assume "rooms (state (room_join e sock roomId username s)) k = Some r'"
    from room_join_frame [OF this] get_or_create_cases [of s roomId e] assms(2)
    show "\<exists>t. position (playbackState r') = Some t \<and> 0 \<le> t"
      by (auto simp: all_rooms_def)
  qed
next
  case (Chat roomId userId body)
  then show ?thesis using assms(2)
    by (auto simp: all_rooms_def dest!: chat_message_frame)
next
  case (Action roomId userId action time)
  show ?thesis
    unfolding all_rooms_def Action handle.simps
  proof (intro allI impI)
    fix k r'
    assume "rooms (state (host_action e roomId userId action time s)) k = Some r'"
    from host_action_frame [OF this] assms show "\<exists>t. position (playbackState r') = Some t \<and> 0 \<le> t"
      by (auto simp: all_rooms_def Action split: option.splits)
  qed
next
  case (Take roomId userId)
  then show ?thesis using assms(2)
    by (auto simp: all_rooms_def dest!: host_take_frame)
next
  case (Disconnect sock)
  have "\<And>r r'. \<exists>t. position (playbackState r) = Some t \<and> 0 \<le> t \<Longrightarrow> leaves sock r r'
          \<Longrightarrow> \<exists>t. position (playbackState r') = Some t \<and> 0 \<le> t"
    by (auto simp: leaves_def)
  then show ?thesis unfolding Disconnect handle.simps
    using assms(2) by (rule disconnecting_all_rooms)
next
  case (Upload roomId meta)
  then show ?thesis using assms(2)
    by (auto simp: all_rooms_def dest!: upload_frame)
qed

lemma run_position:
  "list_all (\<lambda>x. time_ok (snd x)) tr \<Longrightarrow>
   all_rooms (\<lambda>r. \<exists>t. position (playbackState r) = Some t \<and> 0 \<le> t) s \<Longrightarrow>
   all_rooms (\<lambda>r. \<exists>t. position (playbackState r) = Some t \<and> 0 \<le> t) (run s tr)"
proof (induction tr arbitrary: s)
  case Nil
  then show ?case by simp
next
  case (Cons x tr)
  obtain e ev where "x = (e, ev)" by (cases x)
  with Cons show ?case using handle_position by simp
qed

text \<open>
  C6 (as amended). The server stores the time of a host action as it comes. In a state
  reached from the empty server by events whose host actions carry a time that is not
  negative (\<open>play\<close> and \<open>pause\<close> may carry none, \<open>seek\<close> carries one), the playback
  position of every room is a number that is not negative.
\<close>

theorem position_non_negative:
  assumes "list_all (\<lambda>x. time_ok (snd x)) tr" and "rooms (run server0 tr) roomId = Some r"
  shows "\<exists>t. position (playbackState r) = Some t \<and> 0 \<le> t"
  using run_position [OF assms(1) all_rooms_server0] assms(2) by (auto simp: all_rooms_def)

theorem position_non_negative_witness:
  "list_all (\<lambda>x. time_ok (snd x))
     [(sample ''a'', Join ''s1'' ''abc'' (Some ''Ann'')),
      (sample ''c'', Action ''abc'' (Str ''a1'') ''play'' (Some 10))] \<and>
   playbackState (the (rooms (run server0
     [(sample ''a'', Join ''s1'' ''abc'' (Some ''Ann'')),
      (sample ''c'', Action ''abc'' (Str ''a1'') ''play'' (Some 10))]) ''abc''))
     = \<lparr>playing = True, position = Some 10\<rparr>"
proof -
  let ?tr = "[(sample ''a'', Join ''s1'' ''abc'' (Some ''Ann'')),
      (sample ''c'', Action ''abc'' (Str ''a1'') ''play'' (Some 10))]"
  have h: "list_all (\<lambda>x. time_ok (snd x)) ?tr" by simp
  have r: "rooms (run server0 ?tr) ''abc'' = Some (the (rooms (run server0 ?tr) ''abc''))"
    by (simp add: eval_defs)
  show ?thesis
    using h position_non_negative [OF h r] by (simp add: eval_defs)
qed

text \<open>
  C6 as stated fails: the host seeks to \<open>-5\<close> and the position of the room is \<open>-5\<close>.
\<close>

theorem seek_negative_position:
  "position (playbackState (the (rooms (run server0
     [(sample ''a'', Join ''s1'' ''abc'' (Some ''Ann'')),
      (sample ''c'', Action ''abc'' (Str ''a1'') ''seek'' (Some (- 5)))]) ''abc'')))
     = Some (- 5)"
  by (simp add: eval_defs)

section \<open>The sockets of the members\<close>

lemma sockets_put_user:
  "set (map user_socketId (put_user u xs)) \<subseteq> insert (user_socketId u) (set (map user_socketId xs))"
  by (induction xs) auto

lemma distinct_sockets_put_user:
  "distinct (map user_socketId xs) \<Longrightarrow> user_socketId u \<notin> set (map user_socketId xs) \<Longrightarrow>
   distinct (map user_socketId (put_user u xs))"
proof (induction xs)
  case Nil
  then show ?case by simp
next
  case (Cons v vs)
  then show ?case using sockets_put_user [of u vs] by auto
qed

lemma getUserBySocket_None:
  "getUserBySocket r sock = None \<Longrightarrow> sock \<notin> set (map user_socketId (users r))"
  by (auto simp: getUserBySocket_def find_None_iff)

lemma handle_connections:
  assumes "first_join s ev"
    and "all_rooms (\<lambda>r. distinct (map user_socketId (users r))) s"
  shows "all_rooms (\<lambda>r. distinct (map user_socketId (users r))) (state (handle e ev s))"
proof (cases ev)
  case (Join sock roomId username)
  show ?thesis
    unfolding all_rooms_def Join handle.simps
  proof (intro allI impI)
    fix k r'
    assume step: "rooms (state (room_join e sock roomId username s)) k = Some r'"
    let ?r0 = "snd (get_or_create e roomId s)"
    have "distinct (map user_socketId (users ?r0)) \<and> sock \<notin> set (map user_socketId (users ?r0))"
    proof (cases "rooms s roomId")
      case None
      then show ?thesis by (simp add: get_or_create_def Let_def)
    next
      case (Some r)
      then have "getUserBySocket r sock = None" using assms(1) by (simp add: Join)
      then have "sock \<notin> set (map user_socketId (users r))" by (rule getUserBySocket_None)
      with Some assms(2) show ?thesis by (simp add: get_or_create_def all_rooms_def)
    qed
    then have "distinct (map user_socketId
                 (put_user (fst (addUser e sock username ?r0)) (users ?r0)))"
      by (intro distinct_sockets_put_user) simp_all
    with room_join_frame [OF step] assms(2)
    show "distinct (map user_socketId (users r'))"
      by (auto simp: all_rooms_def)
  qed
next
  case (Chat roomId userId body)
  then show ?thesis using assms(2)
    by (auto simp: all_rooms_def dest!: chat_message_frame)
next
  case (Action roomId userId action time)
  then show ?thesis using assms(2)
    by (auto simp: all_rooms_def dest!: host_action_frame)
next
  case (Take roomId userId)
  then show ?thesis using assms(2)
    by (auto simp: all_rooms_def dest!: host_take_frame)
next
  case (Disconnect sock)
  have "\<And>r r'. distinct (map user_socketId (users r)) \<Longrightarrow> leaves sock r r'
          \<Longrightarrow> distinct (map user_socketId (users r'))"
    by (auto simp: leaves_def distinct_map_filter)
  then show ?thesis unfolding Disconnect handle.simps
    using assms(2) by (rule disconnecting_all_rooms)
next
  case (Upload roomId meta)
  then show ?thesis using assms(2)
    by (auto simp: all_rooms_def dest!: upload_frame)
qed

lemma run_connections:
  "joins_once s tr \<Longrightarrow> all_rooms (\<lambda>r. distinct (map user_socketId (users r))) s \<Longrightarrow>
   all_rooms (\<lambda>r. distinct (map user_socketId (users r))) (run s tr)"
proof (induction tr arbitrary: s)
  case Nil
  then show ?case by simp
next
  case (Cons x tr)
  obtain e ev where "x = (e, ev)" by (cases x)
  with Cons show ?case using handle_connections by simp
qed

text \<open>
  C5 (as amended). A join always creates a member for the joining socket. In a state
  reached from the empty server by events in which every join comes from a socket that
  has no member in the room it names, no two members of a room have the same socket.
\<close>

theorem one_member_per_socket:
  assumes "joins_once server0 tr" and "rooms (run server0 tr) roomId = Some r"
  shows "distinct (map user_socketId (users r))"
  using run_connections [OF assms(1) all_rooms_server0] assms(2) by (auto simp: all_rooms_def)

theorem one_member_per_socket_witness:
  "joins_once server0 [(sample ''a'', Join ''s1'' ''abc'' (Some ''Ann'')),
                       (sample ''b'', Join ''s2'' ''abc'' None)] \<and>
   rooms (run server0 [(sample ''a'', Join ''s1'' ''abc'' (Some ''Ann'')),
                       (sample ''b'', Join ''s2'' ''abc'' None)]) ''abc'' = Some abc_room \<and>
   map user_socketId (users abc_room) = [''s1'', ''s2''] \<and>
   distinct (map user_socketId (users abc_room))"
proof -
  let ?tr = "[(sample ''a'', Join ''s1'' ''abc'' (Some ''Ann'')),
              (sample ''b'', Join ''s2'' ''abc'' None)]"
  have h: "joins_once server0 ?tr" by (simp add: eval_defs)
  have r: "rooms (run server0 ?tr) ''abc'' = Some abc_room"
    using two_members_abc by (simp add: two_members_def)
  show ?thesis
    using h r one_member_per_socket [OF h r] by (simp add: abc_room_def ann_def guest_def)
qed

text \<open>
  C5 as stated fails: after two joins of the room abc from the socket s1 the room has two
  members, a1 and b1, of that socket.
\<close>

theorem second_join_shares_socket:
  "map user_socketId (users (the (rooms (run server0
     [(sample ''a'', Join ''s1'' ''abc'' (Some ''Ann'')),
      (sample ''b'', Join ''s1'' ''abc'' (Some ''Ann''))]) ''abc''))) = [''s1'', ''s1''] \<and>
   map user_id (users (the (rooms (run server0
     [(sample ''a'', Join ''s1'' ''abc'' (Some ''Ann'')),
      (sample ''b'', Join ''s1'' ''abc'' (Some ''Ann''))]) ''abc''))) = [''a1'', ''b1'']"
  by (simp add: eval_defs)

section \<open>The host of a room\<close>

text \<open>
  The host of a room is one of its members as long as no request for the host role names
  a property that \<open>users\<close> inherits from \<open>Object.prototype\<close>.
\<close>

lemma put_user_member: "u \<in> set (put_user u xs)"
  by (induction xs) auto

lemma getUser_member:
  "getUser pn r k \<noteq> Missing \<Longrightarrow> k \<notin> set (''name'' # object_prototype_keys) \<Longrightarrow>
   k \<in> set (map user_id (users r))"
  by (auto simp: getUser_def inherited_keys_def split: option.splits if_splits dest!: find_member)

lemma handle_host:
  assumes "take_own ev"
    and "all_rooms (\<lambda>r. \<forall>h. hostId r = Some h \<longrightarrow> h \<in> set (map user_id (users r))) s"
  shows "all_rooms (\<lambda>r. \<forall>h. hostId r = Some h \<longrightarrow> h \<in> set (map user_id (users r)))
           (state (handle e ev s))"
proof (cases ev)
  case (Join sock roomId username)
  show ?thesis
    unfolding all_rooms_def Join handle.simps
  proof (intro allI impI)
    fix k r' h
    assume step: "rooms (state (room_join e sock roomId username s)) k = Some r'"
      and h: "hostId r' = Some h"
    let ?r0 = "snd (get_or_create e roomId s)"
    let ?u = "fst (addUser e sock username ?r0)"
    have r0: "\<forall>h. hostId ?r0 = Some h \<longrightarrow> h \<in> set (map user_id (users ?r0))"
      using get_or_create_cases [of s roomId e] assms(2) by (auto simp: all_rooms_def)
    from room_join_frame [OF step] show "h \<in> set (map user_id (users r'))"
    proof
      assume "k \<noteq> fst (get_or_create e roomId s) \<and> rooms s k = Some r'"
      with assms(2) h show ?thesis by (auto simp: all_rooms_def)
    next
      assume new: "k = fst (get_or_create e roomId s) \<and>
          users r' = put_user ?u (users ?r0) \<and>
          playbackState r' = playbackState ?r0 \<and>
          hostId r' = (if falsy (hostId ?r0) then Some (user_id ?u) else hostId ?r0)"
      then have "set (map user_id (users r')) = insert (user_id ?u) (set (map user_id (users ?r0)))"
        by (simp only: ids_put_user)
      moreover have "h = user_id ?u \<or> hostId ?r0 = Some h"
        using new h by (auto split: if_splits)
      ultimately show ?thesis using r0 by auto
    qed
  qed
next
  case (Chat roomId userId body)
  show ?thesis
    unfolding all_rooms_def Chat handle.simps
  proof (intro allI impI)
    fix k r' h
    assume "rooms (state (chat_message e roomId userId body s)) k = Some r'"
      and "hostId r' = Some h"
    then obtain r where r: "rooms s k = Some r" "map user_id (users r') = map user_id (users r)"
      "hostId r = Some h"
      using chat_message_frame [of e roomId userId body s k r'] by auto
    with assms(2) have "h \<in> set (map user_id (users r))" by (simp add: all_rooms_def)
    then show "h \<in> set (map user_id (users r'))" by (simp only: r(2))
  qed
next
  case (Action roomId userId action time)
  then show ?thesis using assms(2)
    by (auto simp: all_rooms_def dest!: host_action_frame)
next
  case (Take roomId userId)
  show ?thesis
    unfolding all_rooms_def Take handle.simps
  proof (intro allI impI)
    fix k r' h
    assume "rooms (state (host_take e roomId userId s)) k = Some r'"
      and h: "hostId r' = Some h"
    then obtain r where r: "rooms s k = Some r" "users r' = users r"
      "hostId r' = hostId r \<or> hostId r' = Some userId \<and> getUser (proto_name s) r userId \<noteq> Missing"
      using host_take_frame by blast
    from r(3) show "h \<in> set (map user_id (users r'))"
    proof
      assume "hostId r' = hostId r"
      with r h assms(2) show ?thesis by (auto simp: all_rooms_def)
    next
      assume "hostId r' = Some userId \<and> getUser (proto_name s) r userId \<noteq> Missing"
      with h assms(1) r(2) show ?thesis using getUser_member [of "proto_name s" r userId] by (simp add: Take)
    qed
  qed
next
  case (Disconnect sock)
  have "\<And>r r'. \<forall>h. hostId r = Some h \<longrightarrow> h \<in> set (map user_id (users r)) \<Longrightarrow> leaves sock r r'
          \<Longrightarrow> \<forall>h. hostId r' = Some h \<longrightarrow> h \<in> set (map user_id (users r'))"
  proof (intro allI impI)
    fix r r' h
    assume ok: "\<forall>h. hostId r = Some h \<longrightarrow> h \<in> set (map user_id (users r))"
      and l: "leaves sock r r'" and h: "hostId r' = Some h"
    from l show "h \<in> set (map user_id (users r'))"
      unfolding leaves_def
    proof
      assume "r' = r"
      with ok h show ?thesis by simp
    next
      assume "\<exists>u. getUserBySocket r sock = Some u \<and>
          users r' = filter (\<lambda>v. user_id v \<noteq> user_id u) (users r) \<and>
          playbackState r' = playbackState r \<and>
          hostId r' = (if hostId r = Some (user_id u)
                       then (case users r' of [] \<Rightarrow> None | v # _ \<Rightarrow> Some (user_id v))
                       else hostId r)"
      then obtain u where "getUserBySocket r sock = Some u \<and>
          users r' = filter (\<lambda>v. user_id v \<noteq> user_id u) (users r) \<and>
          playbackState r' = playbackState r \<and>
          hostId r' = (if hostId r = Some (user_id u)
                       then (case users r' of [] \<Rightarrow> None | v # _ \<Rightarrow> Some (user_id v))
                       else hostId r)" ..
      note all = this
      have u: "users r' = filter (\<lambda>v. user_id v \<noteq> user_id u) (users r)"
        "hostId r' = (if hostId r = Some (user_id u)
                       then (case users r' of [] \<Rightarrow> None | v # _ \<Rightarrow> Some (user_id v))
                       else hostId r)"
        using all by blast+
      show ?thesis
      proof (cases "hostId r = Some (user_id u)")
        case True
        with u(2) h show ?thesis by (cases "users r'") auto
      next
        case False
        with u(2) h have "hostId r = Some h" "h \<noteq> user_id u" by auto
        with ok have "h \<in> set (map user_id (users r))" by simp
        with \<open>h \<noteq> user_id u\<close> show ?thesis unfolding u(1) by auto
      qed
    qed
  qed
  then show ?thesis unfolding Disconnect handle.simps
    using assms(2) by (rule disconnecting_all_rooms)
next
  case (Upload roomId meta)
  then show ?thesis using assms(2)
    by (auto simp: all_rooms_def dest!: upload_frame)
qed

lemma run_host:
  "list_all (\<lambda>x. take_own (snd x)) tr \<Longrightarrow>
   all_rooms (\<lambda>r. \<forall>h. hostId r = Some h \<longrightarrow> h \<in> set (map user_id (users r))) s \<Longrightarrow>
   all_rooms (\<lambda>r. \<forall>h. hostId r = Some h \<longrightarrow> h \<in> set (map user_id (users r))) (run s tr)"
proof (induction tr arbitrary: s)
  case Nil
  then show ?case by simp
next
  case (Cons x tr)
  obtain e ev where "x = (e, ev)" by (cases x)
  with Cons show ?case using handle_host by simp
qed

lemma filter_id_one:
  "distinct (map user_id xs) \<Longrightarrow> h \<in> set (map user_id xs) \<Longrightarrow>
   length (filter (\<lambda>v. user_id v = h) xs) = 1"
  by (induction xs) (auto simp: filter_empty_conv image_iff)

lemma host_is_member:
  assumes "list_all (\<lambda>x. take_own (snd x)) tr" and "rooms (run server0 tr) roomId = Some r"
  shows "hostId r = None \<or>
         (\<exists>h. hostId r = Some h \<and> length (filter (\<lambda>v. user_id v = h) (users r)) = 1)"
proof -
  have "\<forall>h. hostId r = Some h \<longrightarrow> h \<in> set (map user_id (users r))"
    using run_host [OF assms(1) all_rooms_server0] assms(2) by (auto simp: all_rooms_def)
  moreover have "distinct (map user_id (users r))"
    using run_ids [OF all_rooms_server0] assms(2) by (auto simp: all_rooms_def)
  ultimately show ?thesis using filter_id_one [of "users r"] by (cases "hostId r") auto
qed

text \<open>
  C1. The claim (the host of a room is none or exactly one of its members, after every
  sequence of events) does not hold of the code: Ann joins the room abc, then
  \<open>host:take\<close> arrives with the \<open>userId\<close> \<open>constructor\<close>. The lookup \<open>users['constructor']\<close>
  finds the function \<open>Object\<close>, the handler goes on, and the host of the room is
  \<open>constructor\<close>, which is no member: the only member is a1.
\<close>

theorem host_take_dangling_host:
  "hostId (the (rooms (run server0
     [(sample ''a'', Join ''s1'' ''abc'' (Some ''Ann'')),
      (sample ''c'', Take ''abc'' ''constructor'')]) ''abc'')) = Some ''constructor'' \<and>
   map user_id (users (the (rooms (run server0
     [(sample ''a'', Join ''s1'' ''abc'' (Some ''Ann'')),
      (sample ''c'', Take ''abc'' ''constructor'')]) ''abc''))) = [''a1'']"
  by (simp add: eval_defs)

section \<open>Taking the host role\<close>

text \<open>
  \<open>host:take\<close> answers \<open>room_not_found\<close> or \<open>user_not_found\<close> and changes nothing
  when the room is unknown or the lookup of the user finds nothing, and makes a member
  the host whoever the host was.
\<close>

lemma host_take_of_member:
  assumes "rooms s roomId = Some r" and "getUser (proto_name s) r userId = Own u"
  shows "reply (host_take e roomId userId s) = Some Ok \<and>
         (\<exists>r'. rooms (state (host_take e roomId userId s)) roomId = Some r' \<and>
                hostId r' = Some userId \<and> users r' = users r \<and>
                log_type (last (logs r')) = ''host_changed'')"
  using assms by (simp add: host_take_def Let_def split_beta addLog_fst)

lemma host_take_not_found:
  "rooms s roomId = None \<Longrightarrow>
   host_take e roomId userId s = \<lparr>reply = Some (Error ''room_not_found''), emitted = [], state = s\<rparr>"
  "rooms s roomId = Some r \<Longrightarrow> getUser (proto_name s) r userId = Missing \<Longrightarrow>
   host_take e roomId userId s = \<lparr>reply = Some (Error ''user_not_found''), emitted = [], state = s\<rparr>"
  by (simp_all add: host_take_def)

text \<open>
  C4. The claim (\<open>user_not_found\<close> and no change when the member is not in the room)
  does not hold of the code: in the room abc with the members a1 and b1, \<open>host:take\<close>
  with the \<open>userId\<close> \<open>constructor\<close> is answered \<open>ok\<close>, the host becomes \<open>constructor\<close> and
  the entry \<open>host_changed\<close> is added, naming the function \<open>Object\<close>.
\<close>

theorem host_take_inherited_key:
  "rooms two_members ''abc'' = Some abc_room \<and>
   map user_id (users abc_room) = [''a1'', ''b1''] \<and>
   reply (host_take (sample ''c'') ''abc'' ''constructor'' two_members) = Some Ok \<and>
   hostId (the (rooms (state (host_take (sample ''c'') ''abc'' ''constructor'' two_members))
                  ''abc'')) = Some ''constructor'' \<and>
   last (logs (the (rooms (state (host_take (sample ''c'') ''abc'' ''constructor'' two_members))
                      ''abc''))) =
     \<lparr>log_id = ''c0'', log_type = ''host_changed'',
      log_text = ''Object took host control (previous host: Ann)'', log_time = ''Tc0''\<rparr>"
  using two_members_abc two_members_proto
  by (simp add: abc_room_def ann_def guest_def eval_defs)

section \<open>Chat messages of unknown senders\<close>

text \<open>
  \<open>chat:message\<close> does nothing and answers nothing when the room is unknown or the
  lookup of the user finds nothing.
\<close>

lemma chat_message_dropped:
  "rooms s roomId = None \<Longrightarrow>
   chat_message e roomId userId body s = \<lparr>reply = None, emitted = [], state = s\<rparr>"
  "rooms s roomId = Some r \<Longrightarrow> getUser (proto_name s) r userId = Missing \<Longrightarrow>
   chat_message e roomId userId body s = \<lparr>reply = None, emitted = [], state = s\<rparr>"
  by (simp_all add: chat_message_def)

text \<open>
  C10. The claim (no change, no event and no answer when the member is not in the room)
  does not hold of the code: in the room abc with the members a1 and b1, a chat message
  with the \<open>userId\<close> \<open>constructor\<close> is answered \<open>ok\<close>, goes to the room under the name
  \<open>Object\<close> and is added to the log.
\<close>

theorem chat_message_inherited_key:
  "rooms two_members ''abc'' = Some abc_room \<and>
   map user_id (users abc_room) = [''a1'', ''b1''] \<and>
   reply (chat_message (sample ''c'') ''abc'' ''constructor'' ''hi'' two_members) = Some Ok \<and>
   emitted (chat_message (sample ''c'') ''abc'' ''constructor'' ''hi'' two_members) =
     [(ToRoom ''abc'', Chat_message ''c0'' ''constructor'' (Some ''Object'') ''hi'' ''Tc0'')] \<and>
   last (logs (the (rooms (state (chat_message (sample ''c'') ''abc'' ''constructor'' ''hi''
                                    two_members)) ''abc''))) =
     \<lparr>log_id = ''c1'', log_type = ''chat'', log_text = ''Object: hi'', log_time = ''Tc1''\<rparr>"
  using two_members_abc two_members_proto
  by (simp add: abc_room_def ann_def guest_def eval_defs)

end
